theory Spec2Isabelle
  imports Complex_Main "HOL-Library.Log_Nat" "HOL-Library.AList" "HOL-Library.Word"
begin

section \<open>JavaScript values used by the node\<close>

subsection \<open>Strings\<close>

text \<open>
  A JavaScript string is a sequence of UTF-16 code units. A \<^typ>\<open>char\<close> stands for a code
  unit below 256, which covers every character the page expression gives a meaning to
  (digits, sign, comma, dash, white space).  In that range \<open>String.prototype.trim\<close> and
  \<open>parseInt\<close> treat TAB, LF, VT, FF, CR, SPACE and NBSP (U+00A0) as white space.
\<close>

definition isWhiteSpace :: "char \<Rightarrow> bool" where
  "isWhiteSpace c = (of_char c \<in> {9, 10, 11, 12, 13, 32, 160 :: int})"

definition trim :: "string \<Rightarrow> string" where
  "trim s = rev (dropWhile isWhiteSpace (rev (dropWhile isWhiteSpace s)))"

text \<open>\<open>s.split(c)\<close> for a one-character separator: never empty, \<open>"".split(c) = [""]\<close>.\<close>

function split :: "char \<Rightarrow> string \<Rightarrow> string list" where
  "split c s =
     (let r = dropWhile (\<lambda>x. x \<noteq> c) s
      in if r = [] then [takeWhile (\<lambda>x. x \<noteq> c) s]
         else takeWhile (\<lambda>x. x \<noteq> c) s # split c (tl r))"
  by pat_completeness auto
termination
proof (relation "measure (\<lambda>(c, s). length s)")
  show "wf (measure (\<lambda>(c, s). length s))" by simp
next
  fix c :: char and s r :: string
  assume r: "r = dropWhile (\<lambda>x. x \<noteq> c) s" and ne: "r \<noteq> []"
  have "length (tl r) < length r" using ne by (cases r) simp_all
  also have "length r \<le> length s" unfolding r by (rule length_dropWhile_le)
  finally show "((c, tl r), (c, s)) \<in> measure (\<lambda>(c, s). length s)" by simp
qed

declare split.simps [simp del]

definition includes_char :: "string \<Rightarrow> char \<Rightarrow> bool" where
  "includes_char s c = (c \<in> set s)"

subsection \<open>Numbers\<close>

text \<open>
  A JavaScript number is an IEEE 754 double.  The parser only ever holds the results of
  \<open>parseInt\<close> and of \<open>i++\<close> on them, which are \<open>NaN\<close>, an infinity, or a double whose value is
  an integer; \<open>Fin n\<close> is the double of integer value \<open>n\<close> (the two zeros are identified: the
  code compares numbers, it never divides by one).  \<open>toNumber\<close> is the conversion of a
  mathematical integer to the nearest double, ties to even, overflowing to an infinity from
  \<open>2 ^ 1024 - 2 ^ 970\<close> on.  (For a numeral of more than 20 significant digits ECMAScript
  lets \<open>parseInt\<close> replace the digits after the 20th by zeros before rounding; the value taken
  here is the exactly rounded one, which V8 computes.)
\<close>

datatype number = NaN | Fin int | PosInf | NegInf

definition round_even :: "int \<Rightarrow> int" where
  "round_even n =
     (if n < 2 ^ 53 then n
      else let e = nat (bitlen n - 53);
               q = n div 2 ^ e;
               r = n mod 2 ^ e
           in if 2 * r < 2 ^ e \<or> (2 * r = 2 ^ e \<and> even q) then q * 2 ^ e
              else (q + 1) * 2 ^ e)"

definition toNumber :: "int \<Rightarrow> number" where
  "toNumber x =
     (let m = round_even \<bar>x\<bar>
      in if 2 ^ 1024 \<le> m then (if x < 0 then NegInf else PosInf)
         else Fin (if x < 0 then - m else m))"

definition isNaN :: "number \<Rightarrow> bool" where
  "isNaN x = (x = NaN)"

text \<open>\<open>a < b\<close>, \<open>a > b\<close> and \<open>a <= b\<close> on numbers: false as soon as one side is \<open>NaN\<close>.\<close>

fun lt :: "number \<Rightarrow> number \<Rightarrow> bool" where
  "lt NaN _ = False"
| "lt _ NaN = False"
| "lt (Fin a) (Fin b) = (a < b)"
| "lt (Fin a) PosInf = True"
| "lt (Fin a) NegInf = False"
| "lt PosInf _ = False"
| "lt NegInf NegInf = False"
| "lt NegInf _ = True"

definition gt :: "number \<Rightarrow> number \<Rightarrow> bool" where
  "gt a b = lt b a"

definition le :: "number \<Rightarrow> number \<Rightarrow> bool" where
  "le a b = (a \<noteq> NaN \<and> b \<noteq> NaN \<and> (lt a b \<or> a = b))"

text \<open>\<open>i++\<close> stores \<open>i + 1\<close>, rounded to a double.\<close>

fun increment :: "number \<Rightarrow> number" where
  "increment (Fin n) = toNumber (n + 1)"
| "increment x = x"

text \<open>\<open>a - b\<close>, the comparator handed to \<open>sort\<close>.\<close>

fun minus :: "number \<Rightarrow> number \<Rightarrow> number" where
  "minus NaN _ = NaN"
| "minus _ NaN = NaN"
| "minus (Fin a) (Fin b) = toNumber (a - b)"
| "minus (Fin a) PosInf = NegInf"
| "minus (Fin a) NegInf = PosInf"
| "minus PosInf PosInf = NaN"
| "minus PosInf _ = PosInf"
| "minus NegInf NegInf = NaN"
| "minus NegInf _ = NegInf"

subsection \<open>\<open>parseInt(s, 10)\<close>\<close>

text \<open>
  ECMAScript \<open>parseInt\<close> with radix 10: leading white space is skipped, one sign is read,
  then the longest run of decimal digits; no digit gives \<open>NaN\<close>, anything after the digits
  is ignored.  With radix 10 there is no \<open>0x\<close> prefix.
\<close>

definition isDigit :: "char \<Rightarrow> bool" where
  "isDigit c = (48 \<le> (of_char c :: int) \<and> (of_char c :: int) \<le> 57)"

definition digitsValue :: "string \<Rightarrow> int" where
  "digitsValue z = foldl (\<lambda>acc c. 10 * acc + (of_char c - 48)) 0 z"

definition parseInt :: "string \<Rightarrow> number" where
  "parseInt s =
     (let S = dropWhile isWhiteSpace s;
          neg = (case S of [] \<Rightarrow> False | c # _ \<Rightarrow> c = CHR ''-'');
          S' = (case S of [] \<Rightarrow> [] | c # cs \<Rightarrow> if c = CHR ''+'' \<or> c = CHR ''-'' then cs else S);
          Z = takeWhile isDigit S'
      in if Z = [] then NaN
         else toNumber (if neg then - digitsValue Z else digitsValue Z))"

subsection \<open>Errors\<close>

text \<open>
  A thrown error carries its message and, for the host's node errors, a \<open>context\<close> object of
  which the item index is the field the node reads and writes.  \<open>ApplicationError\<close> has no
  context; \<open>NodeOperationError\<close> is built with \<open>{ itemIndex }\<close>.
\<close>

record js_error =
  message :: string
  errContext :: "nat option option"

definition ApplicationError :: "string \<Rightarrow> js_error" where
  "ApplicationError msg = \<lparr>message = msg, errContext = None\<rparr>"

definition NodeOperationError :: "string \<Rightarrow> nat \<Rightarrow> js_error" where
  "NodeOperationError msg itemIndex = \<lparr>message = msg, errContext = Some (Some itemIndex)\<rparr>"

section \<open>The page-range parser\<close>

text \<open>
  \<open>parsePageNumbers\<close> of the in-memory node.  A call either returns a list, throws, or does
  not return: the result is \<open>Some (Inr pages)\<close>, \<open>Some (Inl error)\<close> or \<open>None\<close>.
\<close>

text \<open>The loop \<open>for (let i = start; i <= end; i++) if (!pages.includes(i)) pages.push(i)\<close>.\<close>

partial_function (option) range_loop :: "number \<Rightarrow> number \<Rightarrow> number list \<Rightarrow> number list option" where
  "range_loop i end' pages =
     (if le i end'
      then range_loop (increment i) end' (if i \<in> set pages then pages else pages @ [i])
      else Some pages)"

declare range_loop.simps [code]

text \<open>
  \<open>const [start, end] = xs\<close>: a missing element is \<open>undefined\<close>, which \<open>isNaN\<close> converts to
  \<open>NaN\<close>.
\<close>

fun first_two :: "number list \<Rightarrow> number \<times> number" where
  "first_two (a # b # _) = (a, b)"
| "first_two [a] = (a, NaN)"
| "first_two [] = (NaN, NaN)"

text \<open>The body of \<open>for (const part of parts)\<close>.\<close>

definition parse_part :: "number list \<Rightarrow> string \<Rightarrow> (js_error + number list) option" where
  "parse_part pages part =
     (let trimmed = trim part
      in if includes_char trimmed (CHR ''-'')
         then (case first_two (map (\<lambda>n. parseInt (trim n)) (split (CHR ''-'') trimmed)) of
                 (start, end') \<Rightarrow>
                   if isNaN start \<or> isNaN end' \<or> gt start end' \<or> lt start (Fin 1)
                   then Some (Inl (ApplicationError (''Invalid page range: '' @ trimmed)))
                   else map_option Inr (range_loop start end' pages))
         else (let pageNum = parseInt trimmed
               in if isNaN pageNum \<or> lt pageNum (Fin 1)
                  then Some (Inl (ApplicationError (''Invalid page number: '' @ trimmed)))
                  else Some (Inr (if pageNum \<in> set pages then pages else pages @ [pageNum]))))"

fun parse_parts :: "number list \<Rightarrow> string list \<Rightarrow> (js_error + number list) option" where
  "parse_parts pages [] = Some (Inr pages)"
| "parse_parts pages (part # parts) =
     (case parse_part pages part of
        None \<Rightarrow> None
      | Some (Inl e) \<Rightarrow> Some (Inl e)
      | Some (Inr pages') \<Rightarrow> parse_parts pages' parts)"

text \<open>
  \<open>pages.sort((a, b) => a - b)\<close>: the sort is stable and orders by the sign of the
  comparator's result, a \<open>NaN\<close> result counting as zero.
\<close>

definition before :: "number \<Rightarrow> number \<Rightarrow> bool" where
  "before a b = (\<not> lt (Fin 0) (minus a b))"

fun insert_sorted :: "number \<Rightarrow> number list \<Rightarrow> number list" where
  "insert_sorted x [] = [x]"
| "insert_sorted x (y # ys) = (if before x y then x # y # ys else y # insert_sorted x ys)"

definition sort_numbers :: "number list \<Rightarrow> number list" where
  "sort_numbers xs = foldr insert_sorted xs []"

definition parsePageNumbers :: "string \<Rightarrow> (js_error + number list) option" where
  "parsePageNumbers pagesParam =
     (case parse_parts [] (split (CHR '','') pagesParam) of
        None \<Rightarrow> None
      | Some (Inl e) \<Rightarrow> Some (Inl e)
      | Some (Inr pages) \<Rightarrow> Some (Inr (sort_numbers pages)))"

section \<open>The node on the in-memory backend\<close>

text \<open>
  \<open>execute\<close> of the node that renders with \<open>pdf-img-convert\<close>.  What the node calls but
  does not define is taken as given: the platform's conversions (\<open>Number::toString\<close> in
  template literals, \<open>Buffer.from(s, 'base64')\<close>, \<open>buf.toString('base64')\<close>, none of
  which throws), and the host with the rendering library.
\<close>

type_synonym buffer = "8 word list"

record platform =
  numberToString :: "number \<Rightarrow> string"
  base64_decode :: "string \<Rightarrow> buffer"
  base64_encode :: "buffer \<Rightarrow> string"

text \<open>A number or \<open>undefined\<close> inside a template literal.\<close>

definition toStr :: "platform \<Rightarrow> number option \<Rightarrow> string" where
  "toStr pf v = (case v of None \<Rightarrow> ''undefined'' | Some n \<Rightarrow> numberToString pf n)"

record image =
  data :: buffer
  mimeType :: string
  fileName :: string
  fileExtension :: string
  pageNumber :: "number option"

text \<open>
  JSON values of an item, with the two values the node adds that are no JSON: the image
  list, and a number that need not be integral (the scale factor or the density, which the
  node only copies).
\<close>

datatype json =
    JNull
  | JBool bool
  | JNumber number
  | JReal real
  | JString string
  | JArray "json list"
  | JObject "(string \<times> json) list"
  | JImages "image list"

text \<open>A binary attachment: \<open>data\<close> (base64), \<open>mimeType\<close>, \<open>fileName\<close>, \<open>fileExtension\<close>.\<close>

datatype binary_data = BinaryData string string string string

record item =
  json :: "(string \<times> json) list"
  binary :: "(string \<times> binary_data) list option"
  error :: "js_error option"
  pairedItem :: "nat option"

text \<open>
  An object literal \<open>{ ...obj, k1: v1, k2: v2 }\<close>: a key already present keeps its place
  and takes the new value, a new key goes last.
\<close>

definition set_props :: "(string \<times> 'v) list \<Rightarrow> (string \<times> 'v) list \<Rightarrow> (string \<times> 'v) list" where
  "set_props obj kvs = foldl (\<lambda>obj (k, v). AList.update k v obj) obj kvs"

record node_parameters =
  inputType :: string
  outputFormat :: string
  scaleParam :: real
  pagesParam :: string
  outputPropertyName :: string
  binaryPropertyName :: string
  base64Data :: string

record conversion_options =
  scale :: real
  base64 :: bool
  page_numbers :: "number list option"

type_synonym converter = "buffer \<Rightarrow> conversion_options \<Rightarrow> js_error + buffer list"

text \<open>
  The host, as both nodes use it: the input items, the parameters as resolved for each
  item, the two binary-data helpers (which may throw) and the continue-on-fail setting.
\<close>

record 'p host =
  getInputData :: "item list"
  getNodeParameter :: "nat \<Rightarrow> 'p"
  assertBinaryData :: "nat \<Rightarrow> string \<Rightarrow> js_error option"
  getBinaryDataBuffer :: "nat \<Rightarrow> string \<Rightarrow> js_error + buffer"
  continueOnFail :: bool

text \<open>
  The in-memory node also needs the outcome of \<open>import('pdf-img-convert')\<close>, whose
  \<open>convert\<close> may throw.
\<close>

record memory_host = "node_parameters host" +
  import_pdf_img_convert :: "js_error + converter"

text \<open>Getting the PDF data according to the input type.\<close>

definition get_pdf_buffer :: "platform \<Rightarrow> memory_host \<Rightarrow> nat \<Rightarrow> node_parameters \<Rightarrow> js_error + buffer" where
  "get_pdf_buffer pf h itemIndex p =
     (if inputType p = ''binaryData''
      then (case assertBinaryData h itemIndex (binaryPropertyName p) of
              Some e \<Rightarrow> Inl e
            | None \<Rightarrow> getBinaryDataBuffer h itemIndex (binaryPropertyName p))
      else if inputType p = ''base64''
      then (if base64Data p = []
            then Inl (NodeOperationError ''Base64 data is required when input type is base64'' itemIndex)
            else Inr (base64_decode pf (base64Data p)))
      else Inl (NodeOperationError (''Unknown input type: '' @ inputType p) itemIndex))"

text \<open>Parsing the pages parameter: \<open>pageNumbers\<close> stays \<open>undefined\<close> on a blank expression.\<close>

definition parse_pages_param :: "string \<Rightarrow> (js_error + number list option) option" where
  "parse_pages_param pages =
     (if trim pages \<noteq> []
      then (case parsePageNumbers pages of
              None \<Rightarrow> None
            | Some (Inl e) \<Rightarrow> Some (Inl e)
            | Some (Inr pageNumbers) \<Rightarrow> Some (Inr (Some pageNumbers)))
      else Some (Inr None))"

definition mimeTypeOf :: "string \<Rightarrow> string" where
  "mimeTypeOf format = (if format = ''png'' then ''image/png'' else ''image/jpeg'')"

text \<open>
  The callback of \<open>outputImages.map\<close>.  \<open>pageNumbers[index]\<close> past the end is \<open>undefined\<close>;
  an array index is below \<open>2 ^ 32\<close>, where \<open>index + 1\<close> is exact.
\<close>

definition make_image :: "platform \<Rightarrow> string \<Rightarrow> number list option \<Rightarrow> nat \<Rightarrow> buffer \<Rightarrow> image" where
  "make_image pf format pageNumbers index imageData =
     (let pageNumber = (case pageNumbers of
                          Some ps \<Rightarrow> (if index < length ps then Some (ps ! index) else None)
                        | None \<Rightarrow> Some (Fin (int index + 1)))
      in \<lparr>data = imageData,
          mimeType = mimeTypeOf format,
          fileName = ''page_'' @ toStr pf pageNumber @ ''.'' @ format,
          fileExtension = format,
          pageNumber = pageNumber\<rparr>)"

text \<open>The conversion call and the tagging of its result.\<close>

definition convert_pages ::
  "platform \<Rightarrow> converter \<Rightarrow> node_parameters \<Rightarrow> buffer \<Rightarrow> number list option \<Rightarrow> js_error + image list" where
  "convert_pages pf convert p pdfBuffer pageNumbers =
     (let conversionOptions = \<lparr>scale = scaleParam p, base64 = False, page_numbers = pageNumbers\<rparr>
      in case convert pdfBuffer conversionOptions of
           Inl conversionError \<Rightarrow> Inl conversionError
         | Inr outputImages \<Rightarrow>
             Inr (map (\<lambda>(index, imageData). make_image pf (outputFormat p) pageNumbers index imageData)
                    (enumerate 0 outputImages)))"

definition output_item :: "platform \<Rightarrow> item \<Rightarrow> node_parameters \<Rightarrow> image list \<Rightarrow> item" where
  "output_item pf it p images =
     \<lparr>json = set_props (json it)
               [(outputPropertyName p, JImages images),
                (''totalPages'', JNumber (Fin (int (length images)))),
                (''outputFormat'', JString (outputFormat p)),
                (''scale'', JReal (scaleParam p))],
      binary = Some (foldl (\<lambda>b im. AList.update
                                (outputPropertyName p @ ''_page_'' @ toStr pf (pageNumber im))
                                (BinaryData (base64_encode pf (data im)) (mimeType im) (fileName im)
                                   (fileExtension im)) b)
                       [] images),
      error = None,
      pairedItem = None\<rparr>"

definition conversion_message :: "js_error \<Rightarrow> string" where
  "conversion_message conversionError =
     ''PDF conversion failed: '' @ message conversionError
     @ ''. This might be due to missing Canvas dependencies. Please ensure the n8n container has the required system dependencies installed.''"

text \<open>
  The body of the outer \<open>try\<close> for one item: \<open>Inr\<close> is the item pushed to \<open>returnData\<close>
  (by the conversion or by the inner \<open>catch\<close>), \<open>Inl\<close> the error thrown to the outer \<open>catch\<close>.
\<close>

definition try_item :: "platform \<Rightarrow> memory_host \<Rightarrow> converter \<Rightarrow> nat \<Rightarrow> (js_error + item) option" where
  "try_item pf h convert itemIndex =
     (let p = getNodeParameter h itemIndex;
          it = getInputData h ! itemIndex
      in case get_pdf_buffer pf h itemIndex p of
           Inl e \<Rightarrow> Some (Inl e)
         | Inr pdfBuffer \<Rightarrow>
            (case parse_pages_param (pagesParam p) of
               None \<Rightarrow> None
             | Some (Inl e) \<Rightarrow> Some (Inl e)
             | Some (Inr pageNumbers) \<Rightarrow>
                (case convert_pages pf convert p pdfBuffer pageNumbers of
                   Inr images \<Rightarrow> Some (Inr (output_item pf it p images))
                 | Inl conversionError \<Rightarrow>
                     if continueOnFail h
                     then Some (Inr \<lparr>json = set_props (json it)
                                              [(''error'', JString (conversion_message conversionError)),
                                               (''originalError'', JString (message conversionError))],
                                     binary = None,
                                     error = Some conversionError,
                                     pairedItem = Some itemIndex\<rparr>)
                     else Some (Inl (NodeOperationError (conversion_message conversionError) itemIndex)))))"

text \<open>One turn of the item loop, with the outer \<open>catch\<close>: the item pushed, or the error thrown.\<close>

definition process_item :: "platform \<Rightarrow> memory_host \<Rightarrow> converter \<Rightarrow> nat \<Rightarrow> (js_error + item) option" where
  "process_item pf h convert itemIndex =
     (case try_item pf h convert itemIndex of
        None \<Rightarrow> None
      | Some (Inr pushed) \<Rightarrow> Some (Inr pushed)
      | Some (Inl e) \<Rightarrow>
          if continueOnFail h
          then Some (Inr \<lparr>json = set_props (json (getInputData h ! itemIndex))
                                   [(''error'', JString (message e))],
                          binary = None,
                          error = Some e,
                          pairedItem = Some itemIndex\<rparr>)
          else (case errContext e of
                  Some c \<Rightarrow> Some (Inl (e\<lparr>errContext := Some (Some itemIndex)\<rparr>))
                | None \<Rightarrow> Some (Inl (NodeOperationError (message e) itemIndex))))"

fun item_loop ::
  "platform \<Rightarrow> memory_host \<Rightarrow> converter \<Rightarrow> nat list \<Rightarrow> item list \<Rightarrow> (js_error + item list) option" where
  "item_loop pf h convert [] returnData = Some (Inr returnData)"
| "item_loop pf h convert (itemIndex # rest) returnData =
     (case process_item pf h convert itemIndex of
        None \<Rightarrow> None
      | Some (Inl e) \<Rightarrow> Some (Inl e)
      | Some (Inr pushed) \<Rightarrow> item_loop pf h convert rest (returnData @ [pushed]))"

text \<open>
  \<open>execute\<close>: the library is imported before the loop and outside every \<open>try\<close>; the attempt
  to load \<open>canvas\<close> only logs a warning when it fails.
\<close>

definition execute :: "platform \<Rightarrow> memory_host \<Rightarrow> (js_error + item list list) option" where
  "execute pf h =
     (case import_pdf_img_convert h of
        Inl e \<Rightarrow> Some (Inl e)
      | Inr convert \<Rightarrow>
         (case item_loop pf h convert [0..<length (getInputData h)] [] of
            None \<Rightarrow> None
          | Some (Inl e) \<Rightarrow> Some (Inl e)
          | Some (Inr returnData) \<Rightarrow> Some (Inr [returnData])))"

section \<open>The node on the file-based backend\<close>

text \<open>
  \<open>execute\<close> of the node that renders with \<open>pdf2pic\<close> through temporary files.  The files
  of the temporary directory are a set of paths, passed from step to step.
\<close>

record file_parameters =
  binaryPropertyNameParam :: string
  formatParam :: string
  densityParam :: real
  outputPropertyParam :: string

record pdf2pic_options =
  density :: real
  saveFilename :: string
  savePath :: string
  format :: string

text \<open>One result of \<open>bulk\<close>: of its fields the node reads \<open>path\<close> and \<open>page\<close>, both optional.\<close>

record write_image_response =
  path :: "string option"
  page :: "number option"

text \<open>What a call of \<open>bulk\<close> leaves behind: the files it wrote, and its results or its error.\<close>

record bulk_outcome =
  written :: "string list"
  results :: "js_error + write_image_response list"

text \<open>
  What the file node needs beyond the host: the temporary directory, the clock reading taken
  for each item, \<open>path.join\<close>, the file operations (\<open>unlink_fails\<close> tells the paths whose
  deletion throws) and the outcome of \<open>import('pdf2pic')\<close>, whose \<open>fromPath(..).bulk(n)\<close> is
  the function of the path, the options and \<open>n\<close>.
\<close>

record file_host = "file_parameters host" +
  tmpdir :: string
  dateNow :: "nat \<Rightarrow> number"
  path_join :: "string \<Rightarrow> string \<Rightarrow> string"
  writeFile :: "string \<Rightarrow> buffer \<Rightarrow> js_error option"
  readFile :: "string \<Rightarrow> js_error + buffer"
  unlink_fails :: "string \<Rightarrow> bool"
  import_pdf2pic :: "js_error + (string \<Rightarrow> pdf2pic_options \<Rightarrow> int \<Rightarrow> bulk_outcome)"

record page_image =
  imageData :: buffer
  imageMimeType :: string
  imageFileName :: string
  imagePageNumber :: number

text \<open>\<open>try { await fs.promises.unlink(p) } catch { }\<close>: a failure is ignored, the file stays.\<close>

definition unlink :: "file_host \<Rightarrow> string \<Rightarrow> string set \<Rightarrow> string set" where
  "unlink h p files = (if unlink_fails h p then files else files - {p})"

text \<open>\<open>if (result.path)\<close>: a missing path and the empty string both count as false.\<close>

definition has_path :: "write_image_response \<Rightarrow> bool" where
  "has_path result = (case path result of None \<Rightarrow> False | Some p \<Rightarrow> p \<noteq> [])"

text \<open>\<open>result.page || 1\<close>: \<open>undefined\<close>, \<open>0\<close> and \<open>NaN\<close> give \<open>1\<close>.\<close>

definition page_or_1 :: "number option \<Rightarrow> number" where
  "page_or_1 v = (case v of None \<Rightarrow> Fin 1 | Some n \<Rightarrow> if n = NaN \<or> n = Fin 0 then Fin 1 else n)"

definition read_image :: "platform \<Rightarrow> string \<Rightarrow> write_image_response \<Rightarrow> buffer \<Rightarrow> page_image" where
  "read_image pf fmt result imageBuffer =
     \<lparr>imageData = imageBuffer,
      imageMimeType = mimeTypeOf fmt,
      imageFileName = ''page_'' @ toStr pf (page result) @ ''.'' @ fmt,
      imagePageNumber = page_or_1 (page result)\<rparr>"

text \<open>The loop \<open>for (const result of results)\<close>, with the images read so far and the files.\<close>

fun read_results ::
  "platform \<Rightarrow> file_host \<Rightarrow> string \<Rightarrow> write_image_response list \<Rightarrow> page_image list \<Rightarrow> string set
   \<Rightarrow> string set \<times> (js_error + page_image list)" where
  "read_results pf h fmt [] images files = (files, Inr images)"
| "read_results pf h fmt (result # rest) images files =
     (if has_path result
      then (case readFile h (the (path result)) of
              Inl e \<Rightarrow> (files, Inl e)
            | Inr imageBuffer \<Rightarrow>
                read_results pf h fmt rest (images @ [read_image pf fmt result imageBuffer])
                  (unlink h (the (path result)) files))
      else read_results pf h fmt rest images files)"

definition file_output_item ::
  "platform \<Rightarrow> item \<Rightarrow> file_parameters \<Rightarrow> buffer \<Rightarrow> page_image list \<Rightarrow> item" where
  "file_output_item pf it p pdfBuffer images =
     \<lparr>json = set_props (json it)
               [(outputPropertyParam p,
                 JObject [(''totalPages'', JNumber (Fin (int (length images)))),
                          (''format'', JString (formatParam p)),
                          (''density'', JReal (densityParam p)),
                          (''pdfSize'', JNumber (Fin (int (length pdfBuffer))))])],
      binary = Some (foldl (\<lambda>b im. AList.update
                                (outputPropertyParam p @ ''_page_'' @ toStr pf (Some (imagePageNumber im)))
                                (BinaryData (base64_encode pf (imageData im)) (imageMimeType im)
                                   (imageFileName im) (formatParam p)) b)
                       [] images),
      error = None,
      pairedItem = None\<rparr>"

definition tempPdfPath :: "platform \<Rightarrow> file_host \<Rightarrow> nat \<Rightarrow> string" where
  "tempPdfPath pf h itemIndex =
     path_join h (tmpdir h)
       (''pdf_'' @ toStr pf (Some (dateNow h itemIndex)) @ ''_''
        @ toStr pf (Some (Fin (int itemIndex))) @ ''.pdf'')"

text \<open>\<open>fromPath(tempPdfPath, options).bulk(-1)\<close>, after the import of \<open>pdf2pic\<close>.\<close>

definition bulk_call :: "platform \<Rightarrow> file_host \<Rightarrow> nat \<Rightarrow> file_parameters \<Rightarrow> js_error + bulk_outcome" where
  "bulk_call pf h itemIndex p =
     (case import_pdf2pic h of
        Inl e \<Rightarrow> Inl e
      | Inr fromPath \<Rightarrow>
          Inr (fromPath (tempPdfPath pf h itemIndex)
                 \<lparr>density = densityParam p, saveFilename = ''page'',
                  savePath = tmpdir h, format = formatParam p\<rparr> (- 1)))"

text \<open>The \<open>try\<close> block that follows the writing of the temporary PDF.\<close>

definition convert_files ::
  "platform \<Rightarrow> file_host \<Rightarrow> nat \<Rightarrow> file_parameters \<Rightarrow> buffer \<Rightarrow> string set
   \<Rightarrow> string set \<times> (js_error + item)" where
  "convert_files pf h itemIndex p pdfBuffer files =
     (case bulk_call pf h itemIndex p of
        Inl e \<Rightarrow> (files, Inl e)
      | Inr outcome \<Rightarrow>
         (case results outcome of
            Inl e \<Rightarrow> (files \<union> set (written outcome), Inl e)
          | Inr rs \<Rightarrow>
             (case read_results pf h (formatParam p) rs [] (files \<union> set (written outcome)) of
                (files', Inl e) \<Rightarrow> (files', Inl e)
              | (files', Inr images) \<Rightarrow>
                  (files', Inr (file_output_item pf (getInputData h ! itemIndex) p pdfBuffer images)))))"

text \<open>
  The conversion call: the temporary PDF is written, the \<open>try\<close> block runs, and the
  \<open>finally\<close> block deletes the temporary PDF whatever the outcome.
\<close>

definition convert_call ::
  "platform \<Rightarrow> file_host \<Rightarrow> nat \<Rightarrow> file_parameters \<Rightarrow> buffer \<Rightarrow> string set
   \<Rightarrow> string set \<times> (js_error + item)" where
  "convert_call pf h itemIndex p pdfBuffer files =
     (case writeFile h (tempPdfPath pf h itemIndex) pdfBuffer of
        Some e \<Rightarrow> (files, Inl e)
      | None \<Rightarrow>
         (case convert_files pf h itemIndex p pdfBuffer (insert (tempPdfPath pf h itemIndex) files) of
            (files', r) \<Rightarrow> (unlink h (tempPdfPath pf h itemIndex) files', r)))"

text \<open>\<open>s.includes(sub)\<close>.\<close>

fun includes_str :: "string \<Rightarrow> string \<Rightarrow> bool" where
  "includes_str [] sub = (sub = [])"
| "includes_str (c # cs) sub = (take (length sub) (c # cs) = sub \<or> includes_str cs sub)"

definition file_error_message :: "js_error \<Rightarrow> string" where
  "file_error_message e =
     (if includes_str (message e) ''pdf2pic''
      then ''PDF conversion failed: '' @ message e
           @ ''. Make sure GraphicsMagick or ImageMagick is installed in your system.''
      else message e)"

text \<open>One turn of the item loop of the file node, with its \<open>catch\<close>.\<close>

definition process_file_item ::
  "platform \<Rightarrow> file_host \<Rightarrow> nat \<Rightarrow> string set \<Rightarrow> string set \<times> (js_error + item)" where
  "process_file_item pf h itemIndex files =
     (let p = getNodeParameter h itemIndex;
          attempt =
            (case assertBinaryData h itemIndex (binaryPropertyNameParam p) of
               Some e \<Rightarrow> (files, Inl e)
             | None \<Rightarrow>
                (case getBinaryDataBuffer h itemIndex (binaryPropertyNameParam p) of
                   Inl e \<Rightarrow> (files, Inl e)
                 | Inr pdfBuffer \<Rightarrow> convert_call pf h itemIndex p pdfBuffer files))
      in case attempt of
           (files', Inr pushed) \<Rightarrow> (files', Inr pushed)
         | (files', Inl e) \<Rightarrow>
             if continueOnFail h
             then (files', Inr \<lparr>json = set_props (json (getInputData h ! itemIndex))
                                         [(''error'', JString (file_error_message e)),
                                          (''conversionFailed'', JBool True)],
                                binary = None,
                                error = None,
                                pairedItem = Some itemIndex\<rparr>)
             else (files', Inl (NodeOperationError (file_error_message e) itemIndex)))"

fun file_item_loop ::
  "platform \<Rightarrow> file_host \<Rightarrow> nat list \<Rightarrow> item list \<Rightarrow> string set
   \<Rightarrow> string set \<times> (js_error + item list)" where
  "file_item_loop pf h [] returnData files = (files, Inr returnData)"
| "file_item_loop pf h (itemIndex # rest) returnData files =
     (case process_file_item pf h itemIndex files of
        (files', Inl e) \<Rightarrow> (files', Inl e)
      | (files', Inr pushed) \<Rightarrow> file_item_loop pf h rest (returnData @ [pushed]) files')"

definition execute_file ::
  "platform \<Rightarrow> file_host \<Rightarrow> string set \<Rightarrow> string set \<times> (js_error + item list list)" where
  "execute_file pf h files =
     (case file_item_loop pf h [0..<length (getInputData h)] [] files of
        (files', Inl e) \<Rightarrow> (files', Inl e)
      | (files', Inr returnData) \<Rightarrow> (files', Inr [returnData]))"

section \<open>Predicates of the specification\<close>

text \<open>
  C4 speaks of an item that converts normally and of one whose base64 string is unreadable.
  An item converts normally to \<open>images\<close> when its PDF data is obtained, its pages
  parameter parses and the conversion gives \<open>images\<close>.  A base64 string is unreadable when it
  is not empty and the conversion of the bytes it decodes to throws.
\<close>

definition converts_normally ::
  "platform \<Rightarrow> memory_host \<Rightarrow> converter \<Rightarrow> nat \<Rightarrow> image list \<Rightarrow> bool" where
  "converts_normally pf h convert itemIndex images =
     (case get_pdf_buffer pf h itemIndex (getNodeParameter h itemIndex) of
        Inl e \<Rightarrow> False
      | Inr pdfBuffer \<Rightarrow>
         (case parse_pages_param (pagesParam (getNodeParameter h itemIndex)) of
            Some (Inr pageNumbers) \<Rightarrow>
              convert_pages pf convert (getNodeParameter h itemIndex) pdfBuffer pageNumbers = Inr images
          | Some (Inl e) \<Rightarrow> False
          | None \<Rightarrow> False))"

definition unreadable_base64 ::
  "platform \<Rightarrow> memory_host \<Rightarrow> converter \<Rightarrow> nat \<Rightarrow> js_error \<Rightarrow> bool" where
  "unreadable_base64 pf h convert itemIndex conversionError =
     (let p = getNodeParameter h itemIndex
      in inputType p = ''base64'' \<and> base64Data p \<noteq> [] \<and>
         (case parse_pages_param (pagesParam p) of
            Some (Inr pageNumbers) \<Rightarrow>
              convert (base64_decode pf (base64Data p))
                \<lparr>scale = scaleParam p, base64 = False, page_numbers = pageNumbers\<rparr>
              = Inl conversionError
          | Some (Inl e) \<Rightarrow> False
          | None \<Rightarrow> False))"

text \<open>
  C10 speaks of the images of the results that have a path: each such result, read from its
  file.
\<close>

definition images_of_results ::
  "platform \<Rightarrow> file_host \<Rightarrow> string \<Rightarrow> write_image_response list \<Rightarrow> page_image list" where
  "images_of_results pf h fmt rs =
     map (\<lambda>r. read_image pf fmt r (projr (readFile h (the (path r))))) (filter has_path rs)"

section \<open>A platform and hosts to run the nodes on\<close>

text \<open>
  Numbers print in decimal (what \<open>Number::toString\<close> does for the integers the examples
  use); the two base64 functions are stand-ins that write each byte as one character, the
  nodes never looking inside a buffer or an encoded string.
\<close>

function decimal :: "int \<Rightarrow> string" where
  "decimal n = (if n < 10 then [char_of (48 + n)] else decimal (n div 10) @ [char_of (48 + n mod 10)])"
  by pat_completeness auto
termination
  by (relation "measure nat") auto

declare decimal.simps [simp del]

definition sample_platform :: platform where
  "sample_platform =
     \<lparr>numberToString = (\<lambda>n. case n of
                                NaN \<Rightarrow> ''NaN''
                              | Fin k \<Rightarrow> if k < 0 then CHR ''-'' # decimal (- k) else decimal k
                              | PosInf \<Rightarrow> ''Infinity''
                              | NegInf \<Rightarrow> ''-Infinity''),
      base64_decode = map (\<lambda>c. word_of_int (of_char c)),
      base64_encode = map (\<lambda>b. char_of (uint b))\<rparr>"

text \<open>
  A rendering library for the examples: it throws on bytes that do not start with \<open>%PDF\<close>,
  renders the two pages of the document when no page is requested, and one image for each
  requested page otherwise.
\<close>

definition sample_convert :: converter where
  "sample_convert pdfBuffer options =
     (if take 4 pdfBuffer = [37, 80, 68, 70]
      then Inr (case page_numbers options of
                  None \<Rightarrow> [[1], [2]]
                | Some ps \<Rightarrow> map (\<lambda>n. [9]) ps)
      else Inl \<lparr>message = ''Invalid PDF structure'', errContext = None\<rparr>)"

text \<open>
  A batch of three items: the first and the third hold a PDF (as base64 text, and as a
  binary attachment with pages 2 and 1 requested), the second holds base64 text that is
  not a PDF.
\<close>

definition sample_items :: "item list" where
  "sample_items =
     [\<lparr>json = [(''id'', JString ''a'')], binary = None, error = None, pairedItem = None\<rparr>,
      \<lparr>json = [(''id'', JString ''b'')], binary = None, error = None, pairedItem = None\<rparr>,
      \<lparr>json = [(''id'', JString ''c'')], binary = None, error = None, pairedItem = None\<rparr>]"

definition sample_parameters :: "nat \<Rightarrow> node_parameters" where
  "sample_parameters itemIndex =
     \<lparr>inputType = (if itemIndex = 2 then ''binaryData'' else ''base64''),
      outputFormat = ''png'',
      scaleParam = 2,
      pagesParam = (if itemIndex = 2 then ''2,1'' else []),
      outputPropertyName = ''images'',
      binaryPropertyName = ''data'',
      base64Data = (if itemIndex = 1 then ''!not base64!'' else ''%PDF-1.4'')\<rparr>"

definition sample_host :: "bool \<Rightarrow> memory_host" where
  "sample_host continue =
     \<lparr>getInputData = sample_items,
      getNodeParameter = sample_parameters,
      assertBinaryData = (\<lambda>itemIndex name. None),
      getBinaryDataBuffer = (\<lambda>itemIndex name. Inr [37, 80, 68, 70, 45]),
      continueOnFail = continue,
      import_pdf_img_convert = Inr sample_convert\<rparr>"

text \<open>
  A host for the file node, with one item: the file reads, the deletions that fail and the
  results of \<open>bulk\<close> are left open; \<open>bulk\<close> writes the files its results name.
\<close>

definition sample_file_host ::
  "(string \<Rightarrow> js_error + buffer) \<Rightarrow> (string \<Rightarrow> bool) \<Rightarrow> write_image_response list \<Rightarrow> file_host" where
  "sample_file_host reads fails rs =
     \<lparr>getInputData = [\<lparr>json = [(''id'', JString ''a'')], binary = None, error = None, pairedItem = None\<rparr>],
      getNodeParameter = (\<lambda>itemIndex. \<lparr>binaryPropertyNameParam = ''data'', formatParam = ''png'',
                                         densityParam = 150, outputPropertyParam = ''images''\<rparr>),
      assertBinaryData = (\<lambda>itemIndex name. None),
      getBinaryDataBuffer = (\<lambda>itemIndex name. Inr [37, 80, 68, 70, 45]),
      continueOnFail = False,
      tmpdir = ''/tmp'',
      dateNow = (\<lambda>itemIndex. Fin 1700000000000),
      path_join = (\<lambda>dir name. dir @ ''/'' @ name),
      writeFile = (\<lambda>p b. None),
      readFile = reads,
      unlink_fails = fails,
      import_pdf2pic = Inr (\<lambda>pdfPath options n.
                              \<lparr>written = map (\<lambda>r. the (path r)) (filter has_path rs),
                               results = Inr rs\<rparr>)\<rparr>"

text \<open>\<open>Number.isInteger\<close>, to state what a page number is.\<close>

fun isInteger :: "number \<Rightarrow> bool" where
  "isInteger (Fin n) = True"
| "isInteger _ = False"

section \<open>Properties of the page-range parser\<close>

subsection \<open>Rounding to a double\<close>


lemma round_even_pos:
  assumes "1 \<le> n" shows "1 \<le> round_even n"
proof (cases "n < 2 ^ 53")
  case True
  then show ?thesis using assms by (simp add: round_even_def)
next
  case False
  define e where "e = nat (bitlen n - 53)"
  have n0: "0 < n" using assms by simp
  have "e \<le> nat (bitlen n - 1)" by (simp add: e_def)
  then have "(2::int) ^ e \<le> 2 ^ nat (bitlen n - 1)"
    by (rule power_increasing) simp
  also have "\<dots> \<le> n" using bitlen_bounds [OF n0] by simp
  finally have le: "(2::int) ^ e \<le> n" .
  have p: "(0::int) < 2 ^ e" by simp
  have "(2::int) ^ e div 2 ^ e \<le> n div 2 ^ e"
    using le p by (rule zdiv_mono1)
  then have "1 \<le> n div 2 ^ e" by simp
  then have q1: "1 * 2 ^ e \<le> (n div 2 ^ e) * 2 ^ e"
    by (intro mult_right_mono) simp_all
  have q2: "(n div 2 ^ e) * 2 ^ e \<le> (n div 2 ^ e + 1) * 2 ^ e"
    by (intro mult_right_mono) simp_all
  have "(1::int) \<le> 2 ^ e" by simp
  with q1 q2 have "1 \<le> (n div 2 ^ e) * 2 ^ e" "1 \<le> (n div 2 ^ e + 1) * 2 ^ e"
    by linarith+
  then show ?thesis using False
    by (simp add: round_even_def Let_def e_def [symmetric])
qed

lemma round_even_0: "round_even 0 = 0"
  by (simp add: round_even_def)


lemma toNumber_pos: "1 \<le> x \<Longrightarrow> toNumber x = PosInf \<or> (\<exists>m\<ge>1. toNumber x = Fin m)"
  using round_even_pos [of x] by (auto simp: toNumber_def Let_def)

lemma lt_zero_toNumber: "lt (Fin 0) (toNumber x) \<longleftrightarrow> 0 < x"
proof (cases "1 \<le> x")
  case True
  then show ?thesis using toNumber_pos [of x] by auto
next
  case False
  then consider "x = 0" | "x < 0" by linarith
  then show ?thesis
  proof cases
    case 1
    then show ?thesis by (simp add: toNumber_def round_even_0)
  next
    case 2
    then have "1 \<le> round_even \<bar>x\<bar>" by (intro round_even_pos) simp
    then show ?thesis using 2 by (auto simp: toNumber_def Let_def)
  qed
qed


lemma round_even_2_53_1: "round_even (2 ^ 53 + 1) = 2 ^ 53"
  by (simp add: round_even_def compute_bitlen)


lemma increment_stuck: "increment (Fin (2 ^ 53)) = Fin (2 ^ 53)"
  using round_even_2_53_1 by (simp add: toNumber_def Let_def)

subsection \<open>Order and sorting\<close>

lemma lt_trans: "lt a b \<Longrightarrow> lt b c \<Longrightarrow> lt a c"
  by (cases a; cases b; cases c) auto

lemma lt_total: "a \<noteq> NaN \<Longrightarrow> b \<noteq> NaN \<Longrightarrow> lt a b \<or> a = b \<or> lt b a"
  by (cases a; cases b) auto

lemma lt_irrefl: "\<not> lt a a"
  by (cases a) auto

lemma before_le: "a \<noteq> NaN \<Longrightarrow> b \<noteq> NaN \<Longrightarrow> before a b = le a b"
  by (cases a; cases b) (auto simp: before_def le_def lt_zero_toNumber)

lemma set_insert_sorted: "set (insert_sorted x ys) = insert x (set ys)"
  by (induction ys) auto

lemma distinct_insert_sorted: "distinct (insert_sorted x ys) = (x \<notin> set ys \<and> distinct ys)"
  by (induction ys) (auto simp: set_insert_sorted)

lemma sorted_insert_sorted:
  "x \<noteq> NaN \<Longrightarrow> NaN \<notin> set ys \<Longrightarrow> x \<notin> set ys \<Longrightarrow> sorted_wrt lt ys
   \<Longrightarrow> sorted_wrt lt (insert_sorted x ys)"
proof (induction ys)
  case Nil
  then show ?case by simp
next
  case (Cons y ys)
  show ?case
  proof (cases "before x y")
    case True
    with Cons.prems have "lt x y" by (auto simp: before_le le_def)
    moreover from this Cons.prems have "\<forall>z\<in>set ys. lt x z" by (auto intro: lt_trans)
    ultimately show ?thesis using True Cons.prems by simp
  next
    case False
    with Cons.prems have "lt y x" using lt_total [of x y] by (auto simp: before_le le_def)
    then show ?thesis using False Cons by (auto simp: set_insert_sorted)
  qed
qed
lemma set_sort_numbers: "set (sort_numbers xs) = set xs"
  by (induction xs) (auto simp: sort_numbers_def set_insert_sorted)
lemma sort_numbers_sorted:
  "NaN \<notin> set xs \<Longrightarrow> distinct xs \<Longrightarrow> sorted_wrt lt (sort_numbers xs) \<and> distinct (sort_numbers xs)"
proof (induction xs)
  case Nil
  then show ?case by (simp add: sort_numbers_def)
next
  case (Cons x xs)
  then have ih: "sorted_wrt lt (sort_numbers xs)" "distinct (sort_numbers xs)" by auto
  have eq: "sort_numbers (x # xs) = insert_sorted x (sort_numbers xs)"
    by (simp add: sort_numbers_def)
  show ?case unfolding eq
    using Cons.prems ih
    by (auto simp: distinct_insert_sorted set_sort_numbers intro!: sorted_insert_sorted)
qed

subsection \<open>What every returned page list satisfies\<close>

lemma le_one_cases: "le (Fin 1) p \<longleftrightarrow> p = PosInf \<or> (\<exists>n\<ge>1. p = Fin n)"
  by (cases p) (auto simp: le_def)

lemma le_one_increment: "le (Fin 1) i \<Longrightarrow> le (Fin 1) (increment i)"
proof (cases i)
  case (Fin n)
  assume "le (Fin 1) i"
  with Fin have "1 \<le> n + 1" by (auto simp: le_def)
  from toNumber_pos [OF this] show ?thesis using Fin by (auto simp: le_one_cases)
qed (auto simp: le_def)

lemma range_loop_pages:
  assumes "range_loop i end' pages = Some r"
  shows "le (Fin 1) i \<longrightarrow> (\<forall>p\<in>set pages. le (Fin 1) p) \<longrightarrow> distinct pages
         \<longrightarrow> (\<forall>p\<in>set r. le (Fin 1) p) \<and> distinct r \<and> set pages \<subseteq> set r"
proof (rule range_loop.raw_induct
    [where P = "\<lambda>i end' pages r. le (Fin 1) i \<longrightarrow> (\<forall>p\<in>set pages. le (Fin 1) p) \<longrightarrow> distinct pages
         \<longrightarrow> (\<forall>p\<in>set r. le (Fin 1) p) \<and> distinct r \<and> set pages \<subseteq> set r", OF _ assms])
  fix f i end' pages r
  assume ih: "\<And>i end' pages r. f i end' pages = Some r \<Longrightarrow>
      le (Fin 1) i \<longrightarrow> (\<forall>p\<in>set pages. le (Fin 1) p) \<longrightarrow> distinct pages
         \<longrightarrow> (\<forall>p\<in>set r. le (Fin 1) p) \<and> distinct r \<and> set pages \<subseteq> set r"
    and step: "(if le i end' then f (increment i) end' (if i \<in> set pages then pages else pages @ [i])
                else Some pages) = Some r"
  show "le (Fin 1) i \<longrightarrow> (\<forall>p\<in>set pages. le (Fin 1) p) \<longrightarrow> distinct pages
         \<longrightarrow> (\<forall>p\<in>set r. le (Fin 1) p) \<and> distinct r \<and> set pages \<subseteq> set r"
  proof (cases "le i end'")
    case True
    with step have call: "f (increment i) end' (if i \<in> set pages then pages else pages @ [i]) = Some r"
      by simp
    show ?thesis
    proof (intro impI)
      assume a: "le (Fin 1) i" "\<forall>p\<in>set pages. le (Fin 1) p" "distinct pages"
      define pages' where "pages' = (if i \<in> set pages then pages else pages @ [i])"
      have b: "le (Fin 1) (increment i)" "\<forall>p\<in>set pages'. le (Fin 1) p" "distinct pages'"
        "set pages \<subseteq> set pages'"
        using a le_one_increment [of i] by (simp_all add: pages'_def subset_insertI)
      from ih [OF call] b have "(\<forall>p\<in>set r. le (Fin 1) p) \<and> distinct r \<and> set pages' \<subseteq> set r"
        unfolding pages'_def [symmetric] by blast
      with b(4) show "(\<forall>p\<in>set r. le (Fin 1) p) \<and> distinct r \<and> set pages \<subseteq> set r"
        by blast
    qed
  next
    case False
    with step show ?thesis by auto
  qed
qed

lemma parse_part_pages:
  assumes "parse_part pages part = Some (Inr r)"
    and "\<forall>p\<in>set pages. le (Fin 1) p" and "distinct pages"
  shows "(\<forall>p\<in>set r. le (Fin 1) p) \<and> distinct r \<and> r \<noteq> []"
proof (cases "includes_char (trim part) (CHR ''-'')")
  case True
  obtain start end' where se:
    "first_two (map (\<lambda>n. parseInt (trim n)) (split (CHR ''-'') (trim part))) = (start, end')"
    by (cases "first_two (map (\<lambda>n. parseInt (trim n)) (split (CHR ''-'') (trim part)))")
  from assms(1) True se have ok: "\<not> isNaN start" "\<not> isNaN end'" "\<not> gt start end'" "\<not> lt start (Fin 1)"
    and loop: "range_loop start end' pages = Some r"
    by (auto simp: parse_part_def Let_def split: if_splits)
  from ok have s1: "le (Fin 1) start" using lt_total [of start "Fin 1"]
    by (auto simp: le_def isNaN_def)
  from ok have "le start end'" using lt_total [of start end']
    by (auto simp: le_def isNaN_def gt_def)
  define pages' where "pages' = (if start \<in> set pages then pages else pages @ [start])"
  from \<open>le start end'\<close> have "range_loop start end' pages = range_loop (increment start) end' pages'"
    unfolding pages'_def by (subst range_loop.simps) simp
  with loop have call: "range_loop (increment start) end' pages' = Some r"
    by simp
  have mem: "start \<in> set pages'" by (simp add: pages'_def)
  have "\<forall>p\<in>set pages'. le (Fin 1) p" "distinct pages'"
    using s1 assms(2,3) by (simp_all add: pages'_def)
  with range_loop_pages [OF call] le_one_increment [OF s1] have "set pages' \<subseteq> set r"
    by blast
  with mem have "r \<noteq> []" by auto
  with range_loop_pages [OF loop] s1 assms(2,3) show ?thesis by auto
next
  case False
  with assms(1) have ok: "\<not> isNaN (parseInt (trim part))" "\<not> lt (parseInt (trim part)) (Fin 1)"
    and r: "r = (if parseInt (trim part) \<in> set pages then pages else pages @ [parseInt (trim part)])"
    by (auto simp: parse_part_def Let_def split: if_splits)
  from ok have "le (Fin 1) (parseInt (trim part))" using lt_total [of "parseInt (trim part)" "Fin 1"]
    by (auto simp: le_def isNaN_def)
  with r assms(2,3) show ?thesis by auto
qed

lemma parse_parts_pages:
  "parse_parts pages parts = Some (Inr r) \<Longrightarrow> \<forall>p\<in>set pages. le (Fin 1) p \<Longrightarrow> distinct pages
   \<Longrightarrow> (\<forall>p\<in>set r. le (Fin 1) p) \<and> distinct r \<and> (parts \<noteq> [] \<longrightarrow> r \<noteq> [])"
proof (induction parts arbitrary: pages)
  case Nil
  then show ?case by simp
next
  case (Cons part parts)
  from Cons.prems(1) obtain pages' where p: "parse_part pages part = Some (Inr pages')"
    and rest: "parse_parts pages' parts = Some (Inr r)"
    by (auto split: option.splits sum.splits)
  from parse_part_pages [OF p Cons.prems(2,3)]
  have inv: "\<forall>p\<in>set pages'. le (Fin 1) p" "distinct pages'" "pages' \<noteq> []" by auto
  from Cons.IH [OF rest inv(1,2)] have a: "(\<forall>p\<in>set r. le (Fin 1) p) \<and> distinct r" by simp
  have "r \<noteq> []"
  proof (cases parts)
    case Nil
    with rest inv(3) show ?thesis by simp
  next
    case (Cons a list)
    with Cons.IH [OF rest inv(1,2)] show ?thesis by simp
  qed
  with a show ?case by simp
qed

lemma split_nonempty: "split c s \<noteq> []"
  by (subst split.simps) (simp add: Let_def)

text \<open>
  Every list the parser returns is strictly ascending, has no repeats, is not empty, and
  holds numbers that are at least 1: positive integers, or \<open>Infinity\<close>.
\<close>

lemma parsePageNumbers_pages:
  assumes "parsePageNumbers expr = Some (Inr ps)"
  shows "sorted_wrt lt ps \<and> distinct ps \<and> (\<forall>p\<in>set ps. le (Fin 1) p) \<and> ps \<noteq> []"
proof -
  from assms obtain pages where p: "parse_parts [] (split (CHR '','') expr) = Some (Inr pages)"
    and ps: "ps = sort_numbers pages"
    by (auto simp: parsePageNumbers_def split: option.splits sum.splits)
  from parse_parts_pages [OF p] split_nonempty
  have inv: "\<forall>p\<in>set pages. le (Fin 1) p" "distinct pages" "pages \<noteq> []" by auto
  from inv(1) have "NaN \<notin> set pages" by (auto simp: le_def)
  from sort_numbers_sorted [OF this inv(2)] inv set_sort_numbers [of pages]
  show ?thesis unfolding ps by (cases pages) auto
qed

subsection \<open>When the range loop returns\<close>


lemma range_loop_stuck: "range_loop (Fin (2 ^ 53)) (Fin (2 ^ 53)) pages = None"
proof (rule ccontr)
  define m where "m = Fin (2 ^ 53)"
  have inc: "increment m = m" unfolding m_def by (rule increment_stuck)
  have lemm: "le m m" by (simp add: m_def le_def)
  assume "range_loop (Fin (2 ^ 53)) (Fin (2 ^ 53)) pages \<noteq> None"
  then obtain r where r: "range_loop m m pages = Some r" by (auto simp: m_def)
  have "\<not> (m = m \<and> m = m)"
  proof (rule range_loop.raw_induct [where P = "\<lambda>i end' pages r. \<not> (i = m \<and> end' = m)", OF _ r])
    fix f i end' pages r
    assume ih: "\<And>i end' pages r. f i end' pages = Some r \<Longrightarrow> \<not> (i = m \<and> end' = m)"
      and step: "(if le i end' then f (increment i) end' (if i \<in> set pages then pages else pages @ [i])
                else Some pages) = Some r"
    show "\<not> (i = m \<and> end' = m)"
    proof
      assume eq: "i = m \<and> end' = m"
      with step lemm inc have "f m m (if i \<in> set pages then pages else pages @ [i]) = Some r"
        by simp
      from ih [OF this] show False by simp
    qed
  qed
  then show False by simp
qed

subsection \<open>Splitting, trimming and \<open>parseInt\<close>\<close>

lemma isDigit_not_space: "isDigit c \<Longrightarrow> \<not> isWhiteSpace c"
  by (auto simp: isDigit_def isWhiteSpace_def)

lemma dash_not_space: "\<not> isWhiteSpace (CHR ''-'')"
  by (simp add: isWhiteSpace_def)

lemma takeWhile_append_none:
  "\<forall>c\<in>set w. \<not> P c \<Longrightarrow> takeWhile P (xs @ w) = takeWhile P xs"
  by (induction xs) (auto simp: takeWhile_eq_Nil_iff)

lemma dropWhile_append_stop:
  "\<not> P y \<Longrightarrow> dropWhile P (xs @ y # ys) = dropWhile P xs @ y # ys"
  by (induction xs) auto

lemma split_none: "c \<notin> set s \<Longrightarrow> split c s = [s]"
proof -
  assume "c \<notin> set s"
  then have "dropWhile (\<lambda>x. x \<noteq> c) s = []" "takeWhile (\<lambda>x. x \<noteq> c) s = s" by auto
  then show ?thesis by (subst split.simps) (simp add: Let_def)
qed

lemma split_first: "c \<notin> set x \<Longrightarrow> split c (x @ c # y) = x # split c y"
proof -
  assume a: "c \<notin> set x"
  then have d: "dropWhile (\<lambda>z. z \<noteq> c) (x @ c # y) = c # y"
    by (induction x) auto
  from a have t: "takeWhile (\<lambda>z. z \<noteq> c) (x @ c # y) = x"
    by (induction x) auto
  show ?thesis by (subst split.simps) (simp add: Let_def d t)
qed

lemma parseInt_append_space:
  assumes "\<forall>c\<in>set w. isWhiteSpace c"
  shows "parseInt (y @ w) = parseInt y"
proof (cases "\<forall>c\<in>set y. isWhiteSpace c")
  case True
  with assms have a: "dropWhile isWhiteSpace (y @ w) = []" and b: "dropWhile isWhiteSpace y = []"
    by auto
  show ?thesis unfolding parseInt_def a b by simp
next
  case False
  then have ne: "dropWhile isWhiteSpace y \<noteq> []" by auto
  from False have d: "dropWhile isWhiteSpace (y @ w) = dropWhile isWhiteSpace y @ w"
    by (auto simp: dropWhile_append)
  obtain c cs where S: "dropWhile isWhiteSpace y = c # cs" using ne by (cases "dropWhile isWhiteSpace y") auto
  have nd: "\<forall>c\<in>set w. \<not> isDigit c" using assms isDigit_not_space by blast
  show ?thesis
    unfolding parseInt_def d S
    by (simp add: Let_def takeWhile_append_none [OF nd] takeWhile_append_none [OF nd, of "c # cs", simplified])
qed

lemma parseInt_rtrim: "parseInt (rev (dropWhile isWhiteSpace (rev x))) = parseInt x"
proof -
  have "rev x = takeWhile isWhiteSpace (rev x) @ dropWhile isWhiteSpace (rev x)" by simp
  then have "x = rev (dropWhile isWhiteSpace (rev x)) @ rev (takeWhile isWhiteSpace (rev x))"
    by (metis rev_append rev_rev_ident)
  moreover have "\<forall>c\<in>set (rev (takeWhile isWhiteSpace (rev x))). isWhiteSpace c"
    by (auto dest: set_takeWhileD)
  ultimately show ?thesis using parseInt_append_space by metis
qed

lemma parseInt_ltrim: "parseInt (dropWhile isWhiteSpace x) = parseInt x"
  by (simp add: parseInt_def)

lemma parseInt_trim: "parseInt (trim x) = parseInt x"
  by (simp add: trim_def parseInt_rtrim parseInt_ltrim)

lemma trim_dash:
  "trim (a @ CHR ''-'' # r)
   = dropWhile isWhiteSpace a @ CHR ''-'' # rev (dropWhile isWhiteSpace (rev r))"
  by (simp add: trim_def
      dropWhile_append_stop [where P = isWhiteSpace and y = "CHR ''-''", OF dash_not_space])

subsection \<open>Tokens\<close>





lemma parse_part_range_throws_iff:
  assumes "includes_char (trim part) (CHR ''-'')"
    and "first_two (map (\<lambda>n. parseInt (trim n)) (split (CHR ''-'') (trim part))) = (start, end')"
  shows "(\<exists>e. parse_part pages part = Some (Inl e))
         \<longleftrightarrow> isNaN start \<or> isNaN end' \<or> gt start end' \<or> lt start (Fin 1)"
    and "isNaN start \<or> isNaN end' \<or> gt start end' \<or> lt start (Fin 1) \<Longrightarrow>
         parse_part pages part = Some (Inl (ApplicationError (''Invalid page range: '' @ trim part)))"
    and "\<not> (isNaN start \<or> isNaN end' \<or> gt start end' \<or> lt start (Fin 1)) \<Longrightarrow>
         parse_part pages part = map_option Inr (range_loop start end' pages)"
  using assms by (auto simp: parse_part_def Let_def split: option.splits)







subsection \<open>The claims about the parser\<close>

text \<open>
  C1.  The examples of the specification: \<open>"1,2,3"\<close>, \<open>"1-5"\<close>, \<open>"1,3-5,7"\<close> and
  \<open>"1,1,2-3,3"\<close> parse to \<open>[1,2,3]\<close>, \<open>[1,2,3,4,5]\<close>, \<open>[1,3,4,5,7]\<close> and \<open>[1,2,3]\<close>;
  \<open>"5-2"\<close>, \<open>"0-3"\<close> and \<open>"abc"\<close> each make the parser throw its error for an invalid page
  expression.
\<close>

theorem parsePageNumbers_examples:
  "parsePageNumbers ''1,2,3'' = Some (Inr [Fin 1, Fin 2, Fin 3])
   \<and> parsePageNumbers ''1-5'' = Some (Inr [Fin 1, Fin 2, Fin 3, Fin 4, Fin 5])
   \<and> parsePageNumbers ''1,3-5,7'' = Some (Inr [Fin 1, Fin 3, Fin 4, Fin 5, Fin 7])
   \<and> parsePageNumbers ''1,1,2-3,3'' = Some (Inr [Fin 1, Fin 2, Fin 3])
   \<and> parsePageNumbers ''5-2'' = Some (Inl (ApplicationError ''Invalid page range: 5-2''))
   \<and> parsePageNumbers ''0-3'' = Some (Inl (ApplicationError ''Invalid page range: 0-3''))
   \<and> parsePageNumbers ''abc'' = Some (Inl (ApplicationError ''Invalid page number: abc''))"
proof (intro conjI)
  show "parsePageNumbers ''1,2,3'' = Some (Inr [Fin 1, Fin 2, Fin 3])"
    by code_simp
  show "parsePageNumbers ''1-5'' = Some (Inr [Fin 1, Fin 2, Fin 3, Fin 4, Fin 5])"
    by code_simp
  show "parsePageNumbers ''1,3-5,7'' = Some (Inr [Fin 1, Fin 3, Fin 4, Fin 5, Fin 7])"
    by code_simp
  show "parsePageNumbers ''1,1,2-3,3'' = Some (Inr [Fin 1, Fin 2, Fin 3])"
    by code_simp
  show "parsePageNumbers ''5-2'' = Some (Inl (ApplicationError ''Invalid page range: 5-2''))"
    by code_simp
  show "parsePageNumbers ''0-3'' = Some (Inl (ApplicationError ''Invalid page range: 0-3''))"
    by code_simp
  show "parsePageNumbers ''abc'' = Some (Inl (ApplicationError ''Invalid page number: abc''))"
    by code_simp
qed

text \<open>
  C2.  Every list the parser returns is strictly ascending, without repeats, and made of
  numbers that are at least 1 (the lemma \<open>parsePageNumbers_pages\<close> above).  Not every
  element is an integer, though: a numeral beyond the range of a double is read as
  \<open>Infinity\<close>, which is neither \<open>NaN\<close> nor below 1, so the expression made of the digit 1
  followed by 309 zeros is accepted and parses to \<open>[Infinity]\<close>.
\<close>

theorem parsePageNumbers_overflow:
  "parsePageNumbers (CHR ''1'' # replicate 309 (CHR ''0'')) = Some (Inr [PosInf])
   \<and> \<not> isInteger PosInf"
proof
  show "parsePageNumbers (CHR ''1'' # replicate 309 (CHR ''0'')) = Some (Inr [PosInf])"
    by code_simp
  show "\<not> isInteger PosInf" by simp
qed

text \<open>
  C6.  A token with a dash throws exactly when a bound is \<open>NaN\<close>, or \<open>start > end\<close>, or
  \<open>start < 1\<close>, and otherwise, for an end below \<open>2 ^ 53\<close>, adds every integer from start to
  end (the lemmas \<open>parse_part_range_throws_iff\<close> and \<open>parse_part_range_safe\<close> above).  From
  \<open>2 ^ 53\<close> on the loop counter is no longer changed by \<open>i++\<close>: on the valid range
  \<open>9007199254740992-9007199254740992\<close> the parser neither throws nor returns.
\<close>

theorem parsePageNumbers_never_returns:
  "parsePageNumbers ''9007199254740992-9007199254740992'' = None"
proof -
  let ?t = "''9007199254740992-9007199254740992''"
  have sp: "split (CHR '','') ?t = [?t]" by (rule split_none) simp
  have tr: "trim ?t = ?t" by code_simp
  have inc: "includes_char (trim ?t) (CHR ''-'')" unfolding tr by code_simp
  have parts: "split (CHR ''-'') ?t = [''9007199254740992'', ''9007199254740992'']" by code_simp
  have pi: "parseInt (trim ''9007199254740992'') = Fin (2 ^ 53)" by code_simp
  have ft: "first_two (map (\<lambda>n. parseInt (trim n)) (split (CHR ''-'') (trim ?t)))
      = (Fin (2 ^ 53), Fin (2 ^ 53))"
    unfolding tr parts by (simp only: list.map first_two.simps pi)
  have ok: "\<not> (isNaN (Fin (2 ^ 53)) \<or> isNaN (Fin (2 ^ 53)) \<or> gt (Fin (2 ^ 53)) (Fin (2 ^ 53))
      \<or> lt (Fin (2 ^ 53)) (Fin 1))"
    by (simp add: isNaN_def gt_def)
  have "parse_part [] ?t = map_option Inr (range_loop (Fin (2 ^ 53)) (Fin (2 ^ 53)) [])"
    by (rule parse_part_range_throws_iff(3) [OF inc ft ok])
  then have "parse_part [] ?t = None" by (simp only: range_loop_stuck option.map)
  then show ?thesis unfolding parsePageNumbers_def sp by simp
qed



text \<open>
  C9, as stated, fails: a token with two dashes or more can make the parser throw, as
  \<open>"5-2-3"\<close> does, whose first two parts are the empty range from 5 to 2.
\<close>

theorem extra_dashes_counterexample:
  "parsePageNumbers ''5-2-3'' = Some (Inl (ApplicationError ''Invalid page range: 5-2-3''))"
  by code_simp

text \<open>
  C9, amended.  A token with two dashes or more is not rejected for its extra dashes: only
  its first two parts are read, as the bounds of a range, and the parts after the second
  dash are ignored.  The token \<open>a-b-c\<close> does what the token \<open>a-b\<close> does: it throws when
  \<open>a-b\<close> throws (the message quoting the whole token), and otherwise has the same result.
  So \<open>"1-2-3"\<close> parses to \<open>[1,2]\<close>.
\<close>

theorem parse_part_extra_dashes:
  assumes "CHR ''-'' \<notin> set a" and "CHR ''-'' \<notin> set b"
  shows "parse_part pages (a @ ''-'' @ b @ ''-'' @ c)
         = (case parse_part pages (a @ ''-'' @ b) of
              Some (Inl e) \<Rightarrow>
                Some (Inl (ApplicationError (''Invalid page range: '' @ trim (a @ ''-'' @ b @ ''-'' @ c))))
            | other \<Rightarrow> other)
         \<and> parsePageNumbers ''1-2-3'' = Some (Inr [Fin 1, Fin 2])"
proof
  let ?la = "dropWhile isWhiteSpace a"
  let ?rb = "rev (dropWhile isWhiteSpace (rev b))"
  let ?rc = "rev (dropWhile isWhiteSpace (rev c))"
  let ?t3 = "a @ ''-'' @ b @ ''-'' @ c" and ?t2 = "a @ ''-'' @ b"
  have la: "CHR ''-'' \<notin> set ?la" using assms(1) set_dropWhileD by fastforce
  have rb: "CHR ''-'' \<notin> set ?rb"
  proof
    assume "CHR ''-'' \<in> set ?rb"
    then have "CHR ''-'' \<in> set (dropWhile isWhiteSpace (rev b))" by simp
    then have "CHR ''-'' \<in> set (rev b)" by (rule set_dropWhileD)
    with assms(2) show False by simp
  qed
  have r3: "rev (dropWhile isWhiteSpace (rev c @ CHR ''-'' # rev b)) = b @ CHR ''-'' # ?rc"
    by (simp add: dropWhile_append_stop [where P = isWhiteSpace and y = "CHR ''-''", OF dash_not_space])
  have t3: "trim ?t3 = ?la @ CHR ''-'' # b @ CHR ''-'' # ?rc"
    using trim_dash [of a "b @ CHR ''-'' # c"] by (simp add: r3)
  have t2: "trim ?t2 = ?la @ CHR ''-'' # ?rb"
    using trim_dash [of a b] by simp
  have s3: "split (CHR ''-'') (trim ?t3) = ?la # b # split (CHR ''-'') ?rc"
    unfolding t3 by (simp add: split_first [OF la] split_first [OF assms(2)])
  have s2: "split (CHR ''-'') (trim ?t2) = [?la, ?rb]"
    unfolding t2 by (simp add: split_first [OF la] split_none [OF rb])
  have f3: "first_two (map (\<lambda>n. parseInt (trim n)) (split (CHR ''-'') (trim ?t3)))
      = (parseInt a, parseInt b)"
    unfolding s3 by (simp add: parseInt_trim parseInt_ltrim)
  have f2: "first_two (map (\<lambda>n. parseInt (trim n)) (split (CHR ''-'') (trim ?t2)))
      = (parseInt a, parseInt b)"
    unfolding s2 by (simp add: parseInt_trim parseInt_ltrim parseInt_rtrim)
  have i3: "includes_char (trim ?t3) (CHR ''-'')" unfolding t3 by (simp add: includes_char_def)
  have i2: "includes_char (trim ?t2) (CHR ''-'')" unfolding t2 by (simp add: includes_char_def)
  show "parse_part pages ?t3
         = (case parse_part pages ?t2 of
              Some (Inl e) \<Rightarrow> Some (Inl (ApplicationError (''Invalid page range: '' @ trim ?t3)))
            | other \<Rightarrow> other)"
  proof (cases "isNaN (parseInt a) \<or> isNaN (parseInt b) \<or> gt (parseInt a) (parseInt b)
      \<or> lt (parseInt a) (Fin 1)")
    case True
    from parse_part_range_throws_iff(2) [OF i3 f3 True] parse_part_range_throws_iff(2) [OF i2 f2 True]
    show ?thesis by simp
  next
    case False
    from parse_part_range_throws_iff(3) [OF i3 f3 False] parse_part_range_throws_iff(3) [OF i2 f2 False]
    show ?thesis by (cases "range_loop (parseInt a) (parseInt b) pages") simp_all
  qed
  show "parsePageNumbers ''1-2-3'' = Some (Inr [Fin 1, Fin 2])" by code_simp
qed

theorem parse_part_extra_dashes_witness:
  "parse_part [] ''1-2'' = Some (Inr [Fin 1, Fin 2]) \<and> parse_part [] ''1-2-3'' = Some (Inr [Fin 1, Fin 2])"
proof -
  have e: "parse_part [] ''1-2'' = Some (Inr [Fin 1, Fin 2])" by code_simp
  from parse_part_extra_dashes [of "''1''" "''2''" "[]" "''3''"] e
  show ?thesis by simp
qed

section \<open>Properties of the node on the in-memory backend\<close>

lemma try_item_unreadable:
  assumes "unreadable_base64 pf h convert itemIndex conversionError"
  shows "try_item pf h convert itemIndex
      = (if continueOnFail h
         then Some (Inr \<lparr>json = set_props (json (getInputData h ! itemIndex))
                                  [(''error'', JString (conversion_message conversionError)),
                                   (''originalError'', JString (message conversionError))],
                         binary = None,
                         error = Some conversionError,
                         pairedItem = Some itemIndex\<rparr>)
         else Some (Inl (NodeOperationError (conversion_message conversionError) itemIndex)))"
  using assms
  by (auto simp: unreadable_base64_def try_item_def get_pdf_buffer_def convert_pages_def Let_def
      split: option.splits sum.splits)

lemma sample_unreadable:
  "unreadable_base64 sample_platform (sample_host c) sample_convert 1
     \<lparr>message = ''Invalid PDF structure'', errContext = None\<rparr>"
proof -
  have t: "trim [] = []" by (simp add: trim_def)
  show ?thesis
    by (simp add: unreadable_base64_def sample_host_def sample_parameters_def sample_platform_def
        sample_convert_def parse_pages_param_def t)
qed

lemma pageNumber_make_image:
  "pageNumber (make_image pf fmt pageNumbers index d)
   = (case pageNumbers of
        Some ps \<Rightarrow> (if index < length ps then Some (ps ! index) else None)
      | None \<Rightarrow> Some (Fin (int index + 1)))"
  by (simp add: make_image_def Let_def)

lemma map_enumerate_pages:
  "map pageNumber (map (\<lambda>(index, d). make_image pf fmt None index d) (enumerate n xs))
   = map (\<lambda>k. Some (Fin (int k + 1))) [n..<n + length xs]"
proof (induction xs arbitrary: n)
  case Nil
  then show ?case by simp
next
  case (Cons x xs)
  have "[n..<n + length (x # xs)] = n # [Suc n..<Suc n + length xs]"
    by (simp add: upt_rec)
  with Cons [of "Suc n"] show ?case by (simp add: pageNumber_make_image)
qed

lemma map_enumerate_requested:
  "length xs \<le> length ps \<Longrightarrow>
   map pageNumber (map (\<lambda>(index, d). make_image pf fmt (Some (qs @ ps)) index d)
                     (enumerate (length qs) xs))
   = map Some (take (length xs) ps)"
proof (induction xs arbitrary: qs ps)
  case Nil
  then show ?case by simp
next
  case (Cons x xs)
  then obtain p ps' where ps: "ps = p # ps'" by (cases ps) auto
  with Cons.prems have len: "length xs \<le> length ps'" by simp
  have "qs @ ps = (qs @ [p]) @ ps'" by (simp add: ps)
  with Cons.IH [OF len, of "qs @ [p]"] show ?case
    by (simp add: ps pageNumber_make_image nth_append)
qed

text \<open>
  C3.  A blank expression leaves the page selection undefined.  Then, when the library
  returns the images of the \<open>P\<close> pages of the document, the conversion returns \<open>P\<close> images
  numbered 1, 2, ..., \<open>P\<close>.  With the page list \<open>ps\<close>, when the library returns one image
  for each requested page, the conversion returns as many images as \<open>ps\<close> has pages, the
  image at each position tagged with the page requested at that position.
\<close>

theorem convert_pages_count:
  "(trim expr = [] \<longrightarrow> parse_pages_param expr = Some (Inr None))
   \<and> (convert pdfBuffer \<lparr>scale = scaleParam p, base64 = False, page_numbers = None\<rparr> = Inr outputImages
        \<longrightarrow> (case convert_pages pf convert p pdfBuffer None of
               Inl e \<Rightarrow> False
             | Inr images \<Rightarrow>
                 length images = length outputImages
                 \<and> map pageNumber images = map (\<lambda>k. Some (Fin (int k))) [1..<length outputImages + 1]))
   \<and> (convert pdfBuffer \<lparr>scale = scaleParam p, base64 = False, page_numbers = Some ps\<rparr> = Inr outputImages
        \<and> length outputImages = length ps
        \<longrightarrow> (case convert_pages pf convert p pdfBuffer (Some ps) of
               Inl e \<Rightarrow> False
             | Inr images \<Rightarrow> length images = length ps \<and> map pageNumber images = map Some ps))"
proof (intro conjI impI)
  show "parse_pages_param expr = Some (Inr None)" if "trim expr = []"
    using that by (simp add: parse_pages_param_def)
next
  assume c: "convert pdfBuffer \<lparr>scale = scaleParam p, base64 = False, page_numbers = None\<rparr> = Inr outputImages"
  have "map (\<lambda>k. Some (Fin (int k + 1))) [0..<length outputImages]
      = map (\<lambda>k. Some (Fin (int k))) [1..<length outputImages + 1]"
    by (simp add: map_Suc_upt [symmetric] del: upt_Suc)
  with map_enumerate_pages [of pf "outputFormat p" 0 outputImages] c
  show "case convert_pages pf convert p pdfBuffer None of
               Inl e \<Rightarrow> False
             | Inr images \<Rightarrow>
                 length images = length outputImages
                 \<and> map pageNumber images = map (\<lambda>k. Some (Fin (int k))) [1..<length outputImages + 1]"
    by (simp add: convert_pages_def)
next
  assume "convert pdfBuffer \<lparr>scale = scaleParam p, base64 = False, page_numbers = Some ps\<rparr> = Inr outputImages
        \<and> length outputImages = length ps"
  then have c: "convert pdfBuffer \<lparr>scale = scaleParam p, base64 = False, page_numbers = Some ps\<rparr> = Inr outputImages"
    and l: "length outputImages = length ps" by simp_all
  from map_enumerate_requested [of outputImages ps pf "outputFormat p" "[]"] c l
  show "case convert_pages pf convert p pdfBuffer (Some ps) of
               Inl e \<Rightarrow> False
             | Inr images \<Rightarrow> length images = length ps \<and> map pageNumber images = map Some ps"
    by (simp add: convert_pages_def)
qed

theorem convert_pages_count_witness:
  "parse_pages_param ''  '' = Some (Inr None)
   \<and> (case convert_pages sample_platform sample_convert (sample_parameters 0) [37, 80, 68, 70, 45] None of
         Inl e \<Rightarrow> False
       | Inr images \<Rightarrow> length images = 2 \<and> map pageNumber images = [Some (Fin 1), Some (Fin 2)])
   \<and> (case convert_pages sample_platform sample_convert (sample_parameters 2) [37, 80, 68, 70, 45]
              (Some [Fin 1, Fin 2]) of
         Inl e \<Rightarrow> False
       | Inr images \<Rightarrow> length images = 2 \<and> map pageNumber images = [Some (Fin 1), Some (Fin 2)])"
proof -
  have t: "trim ''  '' = []" by code_simp
  have u: "map (\<lambda>k. Some (Fin (int k))) [1..<length [[1::8 word], [2]] + 1] = [Some (Fin 1), Some (Fin 2)]"
    by (simp add: upt_rec)
  have c0: "sample_convert [37, 80, 68, 70, 45]
      \<lparr>scale = scaleParam (sample_parameters 0), base64 = False, page_numbers = None\<rparr>
      = Inr [[1], [2]]"
    by (simp add: sample_convert_def)
  have c2: "sample_convert [37, 80, 68, 70, 45]
      \<lparr>scale = scaleParam (sample_parameters 2), base64 = False, page_numbers = Some [Fin 1, Fin 2]\<rparr>
      = Inr [[9], [9]]"
    by (simp add: sample_convert_def)
  note w0 = convert_pages_count [where expr = "''  ''" and convert = sample_convert
      and pdfBuffer = "[37, 80, 68, 70, 45]" and p = "sample_parameters 0" and pf = sample_platform
      and outputImages = "[[1], [2]]" and ps = "[Fin 1, Fin 2]"]
  note w2 = convert_pages_count [where expr = "''  ''" and convert = sample_convert
      and pdfBuffer = "[37, 80, 68, 70, 45]" and p = "sample_parameters 2" and pf = sample_platform
      and outputImages = "[[9], [9]]" and ps = "[Fin 1, Fin 2]"]
  from w0 t have a: "parse_pages_param ''  '' = Some (Inr None)" by blast
  from w0 c0 have "case convert_pages sample_platform sample_convert (sample_parameters 0)
      [37, 80, 68, 70, 45] None of
        Inl e \<Rightarrow> False
      | Inr images \<Rightarrow> length images = length [[1::8 word], [2]]
          \<and> map pageNumber images = map (\<lambda>k. Some (Fin (int k))) [1..<length [[1::8 word], [2]] + 1]"
    by blast
  then have b: "case convert_pages sample_platform sample_convert (sample_parameters 0)
      [37, 80, 68, 70, 45] None of
        Inl e \<Rightarrow> False
      | Inr images \<Rightarrow> length images = 2 \<and> map pageNumber images = [Some (Fin 1), Some (Fin 2)]"
    unfolding u by (simp split: sum.splits)
  from w2 c2 have "case convert_pages sample_platform sample_convert (sample_parameters 2)
      [37, 80, 68, 70, 45] (Some [Fin 1, Fin 2]) of
        Inl e \<Rightarrow> False
      | Inr images \<Rightarrow> length images = length [Fin 1, Fin 2] \<and> map pageNumber images = map Some [Fin 1, Fin 2]"
    by simp
  then have c: "case convert_pages sample_platform sample_convert (sample_parameters 2)
      [37, 80, 68, 70, 45] (Some [Fin 1, Fin 2]) of
        Inl e \<Rightarrow> False
      | Inr images \<Rightarrow> length images = 2 \<and> map pageNumber images = [Some (Fin 1), Some (Fin 2)]"
    by (simp split: sum.splits)
  from a b c show ?thesis by blast
qed

text \<open>
  C7.  In base64 mode an empty string makes the resolution throw; an input type other than
  the two known ones makes it throw the unknown-input-type error; a string that is not
  empty is decoded whatever it holds, and nothing fails at that point: when the conversion
  of the decoded bytes throws, that failure is what the item reports, as an error record in
  continue-on-fail mode and as the error thrown otherwise.
\<close>

theorem get_pdf_buffer_base64:
  "(inputType p = ''base64'' \<and> base64Data p = [] \<longrightarrow>
      get_pdf_buffer pf h itemIndex p
      = Inl (NodeOperationError ''Base64 data is required when input type is base64'' itemIndex))
   \<and> (inputType p \<noteq> ''binaryData'' \<and> inputType p \<noteq> ''base64'' \<longrightarrow>
      get_pdf_buffer pf h itemIndex p
      = Inl (NodeOperationError (''Unknown input type: '' @ inputType p) itemIndex))
   \<and> (inputType p = ''base64'' \<and> base64Data p \<noteq> [] \<longrightarrow>
      get_pdf_buffer pf h itemIndex p = Inr (base64_decode pf (base64Data p)))
   \<and> (unreadable_base64 pf h convert itemIndex conversionError \<longrightarrow>
      try_item pf h convert itemIndex
      = (if continueOnFail h
         then Some (Inr \<lparr>json = set_props (json (getInputData h ! itemIndex))
                                  [(''error'', JString (conversion_message conversionError)),
                                   (''originalError'', JString (message conversionError))],
                         binary = None,
                         error = Some conversionError,
                         pairedItem = Some itemIndex\<rparr>)
         else Some (Inl (NodeOperationError (conversion_message conversionError) itemIndex))))"
  by (intro conjI impI try_item_unreadable) (simp_all add: get_pdf_buffer_def)

theorem get_pdf_buffer_base64_witness:
  "get_pdf_buffer sample_platform (sample_host True) 1 ((sample_parameters 1)\<lparr>base64Data := []\<rparr>)
     = Inl (NodeOperationError ''Base64 data is required when input type is base64'' 1)
   \<and> get_pdf_buffer sample_platform (sample_host True) 1 ((sample_parameters 1)\<lparr>inputType := ''url''\<rparr>)
     = Inl (NodeOperationError ''Unknown input type: url'' 1)
   \<and> get_pdf_buffer sample_platform (sample_host True) 1 (sample_parameters 1)
     = Inr (base64_decode sample_platform ''!not base64!'')
   \<and> try_item sample_platform (sample_host True) sample_convert 1
     = Some (Inr \<lparr>json = [(''id'', JString ''b''),
                          (''error'', JString (conversion_message
                             \<lparr>message = ''Invalid PDF structure'', errContext = None\<rparr>)),
                          (''originalError'', JString ''Invalid PDF structure'')],
                  binary = None,
                  error = Some \<lparr>message = ''Invalid PDF structure'', errContext = None\<rparr>,
                  pairedItem = Some 1\<rparr>)"
proof (intro conjI)
  let ?E = "\<lparr>message = ''Invalid PDF structure'', errContext = None\<rparr>"
  from get_pdf_buffer_base64 [of "(sample_parameters 1)\<lparr>base64Data := []\<rparr>" sample_platform
      "sample_host True" 1 sample_convert ?E]
  show "get_pdf_buffer sample_platform (sample_host True) 1 ((sample_parameters 1)\<lparr>base64Data := []\<rparr>)
     = Inl (NodeOperationError ''Base64 data is required when input type is base64'' 1)"
    by (simp add: sample_parameters_def)
  from get_pdf_buffer_base64 [of "(sample_parameters 1)\<lparr>inputType := ''url''\<rparr>" sample_platform
      "sample_host True" 1 sample_convert ?E]
  show "get_pdf_buffer sample_platform (sample_host True) 1 ((sample_parameters 1)\<lparr>inputType := ''url''\<rparr>)
     = Inl (NodeOperationError ''Unknown input type: url'' 1)"
    by (simp add: sample_parameters_def)
  from get_pdf_buffer_base64 [of "sample_parameters 1" sample_platform
      "sample_host True" 1 sample_convert ?E]
  show "get_pdf_buffer sample_platform (sample_host True) 1 (sample_parameters 1)
     = Inr (base64_decode sample_platform ''!not base64!'')"
    by (simp add: sample_parameters_def)
  from get_pdf_buffer_base64 [of "sample_parameters 1" sample_platform
      "sample_host True" 1 sample_convert ?E] sample_unreadable [of True]
  show "try_item sample_platform (sample_host True) sample_convert 1
     = Some (Inr \<lparr>json = [(''id'', JString ''b''),
                          (''error'', JString (conversion_message ?E)),
                          (''originalError'', JString ''Invalid PDF structure'')],
                  binary = None, error = Some ?E, pairedItem = Some 1\<rparr>)"
    by (simp add: sample_host_def sample_items_def set_props_def)
qed

lemma process_item_normal:
  assumes "converts_normally pf h convert itemIndex images"
  shows "process_item pf h convert itemIndex
         = Some (Inr (output_item pf (getInputData h ! itemIndex) (getNodeParameter h itemIndex) images))"
proof -
  from assms have "try_item pf h convert itemIndex
      = Some (Inr (output_item pf (getInputData h ! itemIndex) (getNodeParameter h itemIndex) images))"
    by (auto simp: converts_normally_def try_item_def Let_def split: sum.splits option.splits)
  then show ?thesis by (simp add: process_item_def)
qed

lemma process_item_unreadable:
  assumes "unreadable_base64 pf h convert itemIndex conversionError"
  shows "process_item pf h convert itemIndex
      = (if continueOnFail h
         then Some (Inr \<lparr>json = set_props (json (getInputData h ! itemIndex))
                                  [(''error'', JString (conversion_message conversionError)),
                                   (''originalError'', JString (message conversionError))],
                         binary = None,
                         error = Some conversionError,
                         pairedItem = Some itemIndex\<rparr>)
         else Some (Inl (NodeOperationError (conversion_message conversionError) itemIndex)))"
  by (simp add: process_item_def try_item_unreadable [OF assms] NodeOperationError_def)

lemma sample_normal_0:
  "converts_normally sample_platform (sample_host c) sample_convert 0
     (map (\<lambda>(index, d). make_image sample_platform ''png'' None index d) (enumerate 0 [[1], [2]]))"
proof -
  have t: "trim [] = []" by (simp add: trim_def)
  show ?thesis
    by (simp add: converts_normally_def sample_host_def sample_parameters_def sample_platform_def
        sample_convert_def parse_pages_param_def get_pdf_buffer_def convert_pages_def t)
qed

lemma sample_normal_2:
  "converts_normally sample_platform (sample_host c) sample_convert 2
     (map (\<lambda>(index, d). make_image sample_platform ''png'' (Some [Fin 1, Fin 2]) index d)
        (enumerate 0 [[9], [9]]))"
proof -
  have t: "trim ''2,1'' \<noteq> []" by code_simp
  have q: "parsePageNumbers ''2,1'' = Some (Inr [Fin 1, Fin 2])" by code_simp
  show ?thesis
    using t by (simp add: converts_normally_def sample_host_def sample_parameters_def
        sample_convert_def parse_pages_param_def get_pdf_buffer_def convert_pages_def q)
qed

text \<open>
  C4.  A batch of three items whose first and third convert normally and whose second
  holds an unreadable base64 string.  In continue-on-fail mode \<open>execute\<close> returns three
  items in the order of the input: the first conversion, an error record for the second
  item (its fields, the error message, the original error, and the item index 1 as
  \<open>pairedItem\<close>), the third conversion.  Otherwise \<open>execute\<close> throws at the second item an
  error whose context holds the item index 1, and returns nothing.
\<close>

theorem execute_failure_policy:
  assumes "length (getInputData h) = 3"
    and "import_pdf_img_convert h = Inr convert"
    and "converts_normally pf h convert 0 images0"
    and "unreadable_base64 pf h convert 1 conversionError"
    and "converts_normally pf h convert 2 images2"
  shows "(continueOnFail h \<longrightarrow>
            execute pf h
            = Some (Inr [[output_item pf (getInputData h ! 0) (getNodeParameter h 0) images0,
                          \<lparr>json = set_props (json (getInputData h ! 1))
                                    [(''error'', JString (conversion_message conversionError)),
                                     (''originalError'', JString (message conversionError))],
                           binary = None,
                           error = Some conversionError,
                           pairedItem = Some 1\<rparr>,
                          output_item pf (getInputData h ! 2) (getNodeParameter h 2) images2]]))
         \<and> (\<not> continueOnFail h \<longrightarrow>
            execute pf h = Some (Inl (NodeOperationError (conversion_message conversionError) 1))
            \<and> errContext (NodeOperationError (conversion_message conversionError) 1) = Some (Some 1))"
proof -
  have idx: "[0..<length (getInputData h)] = [0, 1, 2]"
    unfolding assms(1) by (simp add: upt_rec)
  note p0 = process_item_normal [OF assms(3)]
  note p1 = process_item_unreadable [OF assms(4)]
  note p2 = process_item_normal [OF assms(5)]
  have tag: "errContext (NodeOperationError (conversion_message conversionError) 1) = Some (Some 1)"
    by (simp add: NodeOperationError_def)
  show ?thesis
  proof (cases "continueOnFail h")
    case True
    then show ?thesis
      unfolding execute_def assms(2) idx
      by (simp only: item_loop.simps p0 p1 p2 option.case sum.case if_True append.simps simp_thms)
  next
    case False
    then show ?thesis
      unfolding execute_def assms(2) idx
      by (simp only: item_loop.simps p0 p1 p2 option.case sum.case if_False tag simp_thms)
  qed
qed

theorem execute_failure_policy_witness:
  "(case execute sample_platform (sample_host True) of
      Some (Inr [[first, second, third]]) \<Rightarrow>
        error first = None \<and> map_of (json first) ''totalPages'' = Some (JNumber (Fin 2))
        \<and> second = \<lparr>json = [(''id'', JString ''b''),
                              (''error'', JString (conversion_message
                                 \<lparr>message = ''Invalid PDF structure'', errContext = None\<rparr>)),
                              (''originalError'', JString ''Invalid PDF structure'')],
                      binary = None,
                      error = Some \<lparr>message = ''Invalid PDF structure'', errContext = None\<rparr>,
                      pairedItem = Some 1\<rparr>
        \<and> error third = None \<and> map_of (json third) ''totalPages'' = Some (JNumber (Fin 2))
    | _ \<Rightarrow> False)
   \<and> execute sample_platform (sample_host False)
     = Some (Inl (NodeOperationError (conversion_message
                    \<lparr>message = ''Invalid PDF structure'', errContext = None\<rparr>) 1))"
proof -
  have l: "length (getInputData (sample_host c)) = 3" for c
    by (simp add: sample_host_def sample_items_def)
  have i: "import_pdf_img_convert (sample_host c) = Inr sample_convert" for c
    by (simp add: sample_host_def)
  note t = execute_failure_policy [OF l i sample_normal_0 sample_unreadable sample_normal_2, of True]
  note f = execute_failure_policy [OF l i sample_normal_0 sample_unreadable sample_normal_2, of False]
  have ct: "continueOnFail (sample_host True)" and cf: "\<not> continueOnFail (sample_host False)"
    by (simp_all add: sample_host_def)
  from t ct have a: "execute sample_platform (sample_host True)
            = Some (Inr [[output_item sample_platform (getInputData (sample_host True) ! 0)
                            (getNodeParameter (sample_host True) 0)
                            (map (\<lambda>(index, d). make_image sample_platform ''png'' None index d)
                               (enumerate 0 [[1], [2]])),
                          \<lparr>json = set_props (json (getInputData (sample_host True) ! 1))
                                    [(''error'', JString (conversion_message
                                        \<lparr>message = ''Invalid PDF structure'', errContext = None\<rparr>)),
                                     (''originalError'', JString (message
                                        \<lparr>message = ''Invalid PDF structure'', errContext = None\<rparr>))],
                           binary = None,
                           error = Some \<lparr>message = ''Invalid PDF structure'', errContext = None\<rparr>,
                           pairedItem = Some 1\<rparr>,
                          output_item sample_platform (getInputData (sample_host True) ! 2)
                            (getNodeParameter (sample_host True) 2)
                            (map (\<lambda>(index, d). make_image sample_platform ''png'' (Some [Fin 1, Fin 2]) index d)
                               (enumerate 0 [[9], [9]]))]])"
    by blast
  from f cf have b: "execute sample_platform (sample_host False)
     = Some (Inl (NodeOperationError (conversion_message
                    \<lparr>message = ''Invalid PDF structure'', errContext = None\<rparr>) 1))"
    by blast
  show ?thesis
    unfolding a b
    by (simp add: output_item_def set_props_def sample_host_def sample_items_def sample_parameters_def)
qed

section \<open>Properties of the node on the file-based backend\<close>

lemma unlink_subset: "unlink h q files \<subseteq> files"
  by (auto simp: unlink_def)

lemma read_results_files: "fst (read_results pf h fmt rs images files) \<subseteq> files"
proof (induction rs arbitrary: images files)
  case Nil
  then show ?case by simp
next
  case (Cons r rs)
  show ?case
  proof (cases "has_path r")
    case True
    show ?thesis
    proof (cases "readFile h (the (path r))")
      case (Inl e)
      with True show ?thesis by simp
    next
      case (Inr b)
      have "fst (read_results pf h fmt rs (images @ [read_image pf fmt r b]) (unlink h (the (path r)) files))
          \<subseteq> unlink h (the (path r)) files"
        by (rule Cons.IH)
      with unlink_subset [of h "the (path r)" files] True Inr show ?thesis by auto
    qed
  next
    case False
    with Cons.IH [of images files] show ?thesis by simp
  qed
qed

lemma read_results_deleted:
  assumes "\<forall>q. \<not> unlink_fails h q"
  shows "read_results pf h fmt rs images files = (files', Inr images')
         \<Longrightarrow> files' = files - (\<lambda>r. the (path r)) ` {r \<in> set rs. has_path r}"
proof (induction rs arbitrary: images files)
  case Nil
  then show ?case by simp
next
  case (Cons r rs)
  show ?case
  proof (cases "has_path r")
    case True
    from Cons.prems True obtain b where b: "readFile h (the (path r)) = Inr b"
      by (cases "readFile h (the (path r))") auto
    with Cons.prems True have "read_results pf h fmt rs (images @ [read_image pf fmt r b])
        (unlink h (the (path r)) files) = (files', Inr images')" by simp
    from Cons.IH [OF this] assms True show ?thesis by (auto simp: unlink_def)
  next
    case False
    with Cons.prems have "read_results pf h fmt rs images files = (files', Inr images')" by simp
    from Cons.IH [OF this] False show ?thesis by auto
  qed
qed

lemma read_results_ok:
  "\<forall>r\<in>set rs. has_path r \<longrightarrow> \<not> isl (readFile h (the (path r))) \<Longrightarrow>
   read_results pf h fmt rs images files
   = (foldl (\<lambda>fs r. unlink h (the (path r)) fs) files (filter has_path rs),
      Inr (images @ map (\<lambda>r. read_image pf fmt r (projr (readFile h (the (path r)))))
                      (filter has_path rs)))"
proof (induction rs arbitrary: images files)
  case Nil
  then show ?case by simp
next
  case (Cons r rs)
  then have ih: "\<And>images files. read_results pf h fmt rs images files
   = (foldl (\<lambda>fs r. unlink h (the (path r)) fs) files (filter has_path rs),
      Inr (images @ map (\<lambda>r. read_image pf fmt r (projr (readFile h (the (path r)))))
                      (filter has_path rs)))" by simp
  show ?case
  proof (cases "has_path r")
    case True
    with Cons.prems obtain b where b: "readFile h (the (path r)) = Inr b"
      by (cases "readFile h (the (path r))") auto
    with True show ?thesis by (simp add: ih)
  next
    case False
    then show ?thesis by (simp add: ih)
  qed
qed

lemma length_update_le: "length (AList.update k v al) \<le> Suc (length al)"
  by (induction al) auto

lemma length_attachments:
  "length (foldl (\<lambda>b im. AList.update (k im) (v im) b) acc xs) \<le> length acc + length xs"
proof (induction xs arbitrary: acc)
  case Nil
  then show ?case by simp
next
  case (Cons x xs)
  have "length (AList.update (k x) (v x) acc) \<le> Suc (length acc)"
    by (rule length_update_le)
  with Cons [of "AList.update (k x) (v x) acc"] show ?case by simp
qed

lemma map_of_set_props_last:
  "map_of (set_props obj [(k, v)]) k = Some v"
  by (simp add: set_props_def AList.update_conv')

lemma sample_tempPdfPath:
  "tempPdfPath sample_platform (sample_file_host reads fails rs) 0 = ''/tmp/pdf_1700000000000_0.pdf''"
proof -
  have d: "decimal 1700000000000 = ''1700000000000''" "decimal 0 = ''0''" by code_simp+
  show ?thesis
    by (simp add: tempPdfPath_def sample_file_host_def sample_platform_def toStr_def d)
qed

lemma sample_bulk_call:
  "bulk_call sample_platform (sample_file_host reads fails rs) 0 p
   = Inr \<lparr>written = map (\<lambda>r. the (path r)) (filter has_path rs), results = Inr rs\<rparr>"
  by (simp add: bulk_call_def sample_file_host_def)

lemma sample_file_host_sel:
  "writeFile (sample_file_host reads fails rs) = (\<lambda>p b. None)"
  "readFile (sample_file_host reads fails rs) = reads"
  "unlink_fails (sample_file_host reads fails rs) = fails"
  "getInputData (sample_file_host reads fails rs)
   = [\<lparr>json = [(''id'', JString ''a'')], binary = None, error = None, pairedItem = None\<rparr>]"
  by (simp_all add: sample_file_host_def)

text \<open>
  Where no deletion fails, the temporary PDF, once written, is gone when the call returns
  or its error propagates, and a call that returns normally has deleted every page image
  that \<open>pdf2pic\<close> reported with a path.
\<close>

lemma convert_call_deletes:
  assumes "\<forall>q. \<not> unlink_fails h q"
    and "writeFile h (tempPdfPath pf h itemIndex) pdfBuffer = None"
  shows "tempPdfPath pf h itemIndex \<notin> fst (convert_call pf h itemIndex p pdfBuffer files)"
    and "bulk_call pf h itemIndex p = Inr outcome \<Longrightarrow> results outcome = Inr rs \<Longrightarrow>
         \<not> isl (snd (convert_call pf h itemIndex p pdfBuffer files)) \<Longrightarrow>
         r \<in> set rs \<Longrightarrow> has_path r \<Longrightarrow>
         the (path r) \<notin> fst (convert_call pf h itemIndex p pdfBuffer files)"
proof -
  let ?T = "tempPdfPath pf h itemIndex"
  show "?T \<notin> fst (convert_call pf h itemIndex p pdfBuffer files)"
    using assms by (simp add: convert_call_def unlink_def split: prod.splits)
  show "the (path r) \<notin> fst (convert_call pf h itemIndex p pdfBuffer files)"
    if a: "bulk_call pf h itemIndex p = Inr outcome" "results outcome = Inr rs"
      "\<not> isl (snd (convert_call pf h itemIndex p pdfBuffer files))"
      and r: "r \<in> set rs" "has_path r"
  proof -
    let ?F = "insert ?T files \<union> set (written outcome)"
    obtain files2 x where rr: "read_results pf h (formatParam p) rs [] ?F = (files2, x)"
      by (cases "read_results pf h (formatParam p) rs [] ?F")
    from a rr have cf: "convert_files pf h itemIndex p pdfBuffer (insert ?T files)
        = (files2, case x of Inl e \<Rightarrow> Inl e
                    | Inr images \<Rightarrow> Inr (file_output_item pf (getInputData h ! itemIndex) p pdfBuffer images))"
      by (simp add: convert_files_def split: sum.splits)
    with assms(2) have cc: "convert_call pf h itemIndex p pdfBuffer files
        = (unlink h ?T files2, case x of Inl e \<Rightarrow> Inl e
                    | Inr images \<Rightarrow> Inr (file_output_item pf (getInputData h ! itemIndex) p pdfBuffer images))"
      by (simp add: convert_call_def)
    with a obtain images where x: "x = Inr images" by (cases x) auto
    from read_results_deleted [OF assms(1) rr [unfolded x]]
    have "files2 = ?F - (\<lambda>r. the (path r)) ` {r \<in> set rs. has_path r}" .
    with r have "the (path r) \<notin> files2" by auto
    with unlink_subset [of h ?T files2] show ?thesis unfolding cc by auto
  qed
qed

text \<open>
  C5.  The file-based backend does not delete every temporary file of a call that fails:
  a page image is deleted only after it has been read, inside the loop, and nothing
  deletes the images that are left when the loop is abandoned.  Here \<open>pdf2pic\<close> has written
  three page images, no deletion fails, and the reading of the second image fails: the
  error propagates with the second and the third image still on disk, the first image and
  the temporary PDF being deleted.
\<close>

theorem convert_call_leaves_images:
  "(case convert_call sample_platform
          (sample_file_host
             (\<lambda>q. if q = ''/tmp/page.2.png''
                   then Inl \<lparr>message = ''EIO: i/o error, read'', errContext = None\<rparr>
                   else Inr [1])
             (\<lambda>q. False)
             [\<lparr>path = Some ''/tmp/page.1.png'', page = Some (Fin 1)\<rparr>,
              \<lparr>path = Some ''/tmp/page.2.png'', page = Some (Fin 2)\<rparr>,
              \<lparr>path = Some ''/tmp/page.3.png'', page = Some (Fin 3)\<rparr>])
          0 \<lparr>binaryPropertyNameParam = ''data'', formatParam = ''png'',
             densityParam = 150, outputPropertyParam = ''images''\<rparr>
          [37, 80, 68, 70, 45] {} of
      (files', r) \<Rightarrow>
        r = Inl \<lparr>message = ''EIO: i/o error, read'', errContext = None\<rparr>
        \<and> files' = {''/tmp/page.2.png'', ''/tmp/page.3.png''})"
  by (simp add: convert_call_def convert_files_def sample_bulk_call sample_tempPdfPath
      sample_file_host_sel has_path_def unlink_def insert_Diff_if)

text \<open>
  C10.  A result of \<open>bulk\<close> without a path (none, or the empty string) is skipped.  When
  every file that a result names can be read, the call produces the images of the results
  that have a path and no other; only the files of these results are deleted; the
  \<open>totalPages\<close> it reports is the number of results with a path, whatever the number of
  results; and there are at most that many binary attachments.
\<close>

theorem convert_files_skips:
  assumes "bulk_call pf h itemIndex p = Inr outcome"
    and "results outcome = Inr rs"
    and "\<forall>r\<in>set rs. has_path r \<longrightarrow> \<not> isl (readFile h (the (path r)))"
  shows "convert_files pf h itemIndex p pdfBuffer files
         = (foldl (\<lambda>fs r. unlink h (the (path r)) fs) (files \<union> set (written outcome))
              (filter has_path rs),
            Inr (file_output_item pf (getInputData h ! itemIndex) p pdfBuffer
                   (images_of_results pf h (formatParam p) rs)))
         \<and> length (images_of_results pf h (formatParam p) rs) = length (filter has_path rs)
         \<and> map_of (json (file_output_item pf (getInputData h ! itemIndex) p pdfBuffer
                           (images_of_results pf h (formatParam p) rs)))
              (outputPropertyParam p)
           = Some (JObject [(''totalPages'', JNumber (Fin (int (length (filter has_path rs))))),
                            (''format'', JString (formatParam p)),
                            (''density'', JReal (densityParam p)),
                            (''pdfSize'', JNumber (Fin (int (length pdfBuffer))))])
         \<and> length (the (binary (file_output_item pf (getInputData h ! itemIndex) p pdfBuffer
                                   (images_of_results pf h (formatParam p) rs))))
           \<le> length (filter has_path rs)"
proof (intro conjI)
  show "convert_files pf h itemIndex p pdfBuffer files
         = (foldl (\<lambda>fs r. unlink h (the (path r)) fs) (files \<union> set (written outcome))
              (filter has_path rs),
            Inr (file_output_item pf (getInputData h ! itemIndex) p pdfBuffer
                   (images_of_results pf h (formatParam p) rs)))"
    by (simp add: convert_files_def assms(1,2) read_results_ok [OF assms(3)] images_of_results_def)
  show len: "length (images_of_results pf h (formatParam p) rs) = length (filter has_path rs)"
    by (simp add: images_of_results_def)
  show "map_of (json (file_output_item pf (getInputData h ! itemIndex) p pdfBuffer
                           (images_of_results pf h (formatParam p) rs)))
              (outputPropertyParam p)
           = Some (JObject [(''totalPages'', JNumber (Fin (int (length (filter has_path rs))))),
                            (''format'', JString (formatParam p)),
                            (''density'', JReal (densityParam p)),
                            (''pdfSize'', JNumber (Fin (int (length pdfBuffer))))])"
    by (simp add: file_output_item_def map_of_set_props_last len)
  have "length (the (binary (file_output_item pf (getInputData h ! itemIndex) p pdfBuffer
                                   (images_of_results pf h (formatParam p) rs))))
      \<le> length ([] :: (string \<times> binary_data) list) + length (images_of_results pf h (formatParam p) rs)"
    unfolding file_output_item_def by (simp only: item.simps option.sel length_attachments)
  then show "length (the (binary (file_output_item pf (getInputData h ! itemIndex) p pdfBuffer
                                   (images_of_results pf h (formatParam p) rs))))
           \<le> length (filter has_path rs)"
    by (simp add: len)
qed

theorem convert_files_skips_witness:
  "length (images_of_results sample_platform (sample_file_host (\<lambda>q. Inr [1]) (\<lambda>q. False) [])
             ''png''
             [\<lparr>path = Some ''/tmp/page.1.png'', page = Some (Fin 1)\<rparr>,
              \<lparr>path = None, page = Some (Fin 2)\<rparr>,
              \<lparr>path = Some [], page = Some (Fin 3)\<rparr>]) = 1
   \<and> (case convert_files sample_platform
               (sample_file_host (\<lambda>q. Inr [1]) (\<lambda>q. False)
                  [\<lparr>path = Some ''/tmp/page.1.png'', page = Some (Fin 1)\<rparr>,
                   \<lparr>path = None, page = Some (Fin 2)\<rparr>,
                   \<lparr>path = Some [], page = Some (Fin 3)\<rparr>])
               0
               \<lparr>binaryPropertyNameParam = ''data'', formatParam = ''png'',
                densityParam = 150, outputPropertyParam = ''images''\<rparr>
               [37, 80, 68, 70, 45] {} of
         (files', Inl e) \<Rightarrow> False
       | (files', Inr out) \<Rightarrow>
           files' = {}
           \<and> map_of (json out) ''images''
             = Some (JObject [(''totalPages'', JNumber (Fin 1)), (''format'', JString ''png''),
                              (''density'', JReal 150), (''pdfSize'', JNumber (Fin 5))]))"
proof -
  let ?rs = "[\<lparr>path = Some ''/tmp/page.1.png'', page = Some (Fin 1)\<rparr>,
              \<lparr>path = None, page = Some (Fin 2)\<rparr>,
              \<lparr>path = Some [], page = Some (Fin 3)\<rparr>]"
  let ?h = "sample_file_host (\<lambda>q. Inr [1]) (\<lambda>q. False) ?rs"
  let ?p = "\<lparr>binaryPropertyNameParam = ''data'', formatParam = ''png'',
                densityParam = 150, outputPropertyParam = ''images''\<rparr>"
  have f: "filter has_path ?rs = [\<lparr>path = Some ''/tmp/page.1.png'', page = Some (Fin 1)\<rparr>]"
    by (simp add: has_path_def)
  have r: "\<forall>r\<in>set ?rs. has_path r \<longrightarrow> \<not> isl (readFile ?h (the (path r)))"
    by (simp add: sample_file_host_def)
  have i: "images_of_results sample_platform ?h ''png'' ?rs
      = images_of_results sample_platform (sample_file_host (\<lambda>q. Inr [1]) (\<lambda>q. False) []) ''png'' ?rs"
    by (simp add: images_of_results_def sample_file_host_def)
  have u: "unlink ?h q files = files - {q}" for q files
    by (simp add: unlink_def sample_file_host_def)
  let ?o = "\<lparr>written = map (\<lambda>r. the (path r)) (filter has_path ?rs), results = Inr ?rs\<rparr>"
  have bc: "bulk_call sample_platform ?h 0 ?p = Inr ?o" by (rule sample_bulk_call)
  have res: "results ?o = Inr ?rs" by simp
  note w = convert_files_skips [OF bc res r, of "[37, 80, 68, 70, 45]" "{}", unfolded f]
  from w have a: "length (images_of_results sample_platform ?h ''png'' ?rs) = 1"
    by simp
  from w have b: "convert_files sample_platform ?h 0 ?p [37, 80, 68, 70, 45] {}
      = ({}, Inr (file_output_item sample_platform (getInputData ?h ! 0) ?p [37, 80, 68, 70, 45]
                   (images_of_results sample_platform ?h ''png'' ?rs)))"
    by (simp add: u)
  from w have c: "map_of (json (file_output_item sample_platform (getInputData ?h ! 0) ?p
        [37, 80, 68, 70, 45] (images_of_results sample_platform ?h ''png'' ?rs))) ''images''
      = Some (JObject [(''totalPages'', JNumber (Fin 1)), (''format'', JString ''png''),
                       (''density'', JReal 150), (''pdfSize'', JNumber (Fin 5))])"
    by simp
  from a b c show ?thesis unfolding i [symmetric] by simp
qed

end
